theory Spec2Isabelle
  imports Complex_Main
begin

section \<open>Settings snapshots\<close>

text \<open>
  The TypeScript type \<^verbatim>\<open>AppSettings\<close> of \<^verbatim>\<open>src/main.ts\<close> and \<^verbatim>\<open>src/settings.ts\<close>.
  The field \<^verbatim>\<open>text\<close> is called \<open>textColor\<close> here, because \<^verbatim>\<open>text\<close> is a keyword
  of the theory language. Numbers are modelled as integers: the control surface only
  sends values that went through \<^verbatim>\<open>clampInt\<close>, and \<^verbatim>\<open>Date.now()\<close> is a whole number
  of milliseconds.
\<close>

datatype timer_mode = Off | Countdown

record AppSettings =
  bg :: string
  titleText :: string
  textColor :: string
  subtitleText :: string
  subtitleColor :: string
  timerMode :: timer_mode
  timerMin :: int
  timerSec :: int

section \<open>Display surface (\<^verbatim>\<open>src/main.ts\<close>)\<close>

subsection \<open>State\<close>

text \<open>
  The module-level variables of \<^verbatim>\<open>src/main.ts\<close> together with the parts of the page
  that the timer engine and \<^verbatim>\<open>applySettings\<close> write. The page elements
  \<^verbatim>\<open>#timerDisplay\<close>, \<^verbatim>\<open>#titleDisplay\<close> and \<^verbatim>\<open>#subtitleDisplay\<close> are taken to exist.

  \<open>timerInterval\<close> is \<open>None\<close> for \<^verbatim>\<open>null\<close>. A live interval is \<open>Some t\<close>, where \<open>t\<close> is the
  value of \<^verbatim>\<open>lastTick.t\<close> held by the closure that \<^verbatim>\<open>startCountdown\<close> passed to
  \<^verbatim>\<open>setInterval\<close>: there is at most one live interval, so one slot is enough.
\<close>

record display_state =
  configuredTimerMode :: timer_mode
  configuredDurationMs :: int
  timerInterval :: "int option"
  remainingMs :: int
  urgent :: bool
  displayText :: string
  displayShown :: bool
  appBg :: string
  appText :: string
  subtitleColorVar :: string
  titleShown :: string
  subtitleShown :: string

definition URGENT_MS :: int where
  "URGENT_MS = 5 * 60 * 1000"

subsection \<open>Theme and text\<close>

definition themeValue :: "string \<Rightarrow> string" where
  "themeValue v = (if take 1 v = ''#'' then v else ''var(--pcc-'' @ v @ '')'')"

definition setTextContent :: "string \<Rightarrow> string \<Rightarrow> display_state \<Rightarrow> display_state" where
  "setTextContent title subtitle st = st\<lparr>titleShown := title, subtitleShown := subtitle\<rparr>"

subsection \<open>Formatting\<close>

text \<open>
  \<^verbatim>\<open>String(n)\<close> for a natural number, \<^verbatim>\<open>padStart\<close>, and \<^verbatim>\<open>Math.ceil(ms / 1000)\<close> on an
  integer number of milliseconds.
\<close>

definition digit_char :: "nat \<Rightarrow> char" where
  "digit_char d = ''0123456789'' ! d"

fun digits_of :: "nat \<Rightarrow> string" where
  "digits_of n =
     (if n < 10 then [digit_char n] else digits_of (n div 10) @ [digit_char (n mod 10)])"

declare digits_of.simps [simp del]

definition padStart :: "nat \<Rightarrow> char \<Rightarrow> string \<Rightarrow> string" where
  "padStart n c s = replicate (n - length s) c @ s"

definition ceil_div :: "int \<Rightarrow> int \<Rightarrow> int" where
  "ceil_div a b = - ((- a) div b)"

definition pad2 :: "int \<Rightarrow> string" where
  "pad2 n = padStart 2 (CHR ''0'') (digits_of (nat (max 0 n)))"

definition formatMs :: "int \<Rightarrow> string" where
  "formatMs ms =
     (let totalSec = max 0 (ceil_div ms 1000);
          m = totalSec div 60;
          s = totalSec mod 60
      in pad2 m @ '':'' @ pad2 s)"

subsection \<open>Timer engine\<close>

definition setUrgent :: "bool \<Rightarrow> display_state \<Rightarrow> display_state" where
  "setUrgent isUrgent st = st\<lparr>urgent := isUrgent\<rparr>"

definition syncUrgentClass :: "display_state \<Rightarrow> display_state" where
  "syncUrgentClass st =
     setUrgent (configuredTimerMode st = Countdown \<and> remainingMs st > 0
                \<and> remainingMs st \<le> URGENT_MS) st"

definition stopInterval :: "display_state \<Rightarrow> display_state" where
  "stopInterval st = (if timerInterval st \<noteq> None then st\<lparr>timerInterval := None\<rparr> else st)"

definition setDisplay :: "string \<Rightarrow> bool \<Rightarrow> display_state \<Rightarrow> display_state" where
  "setDisplay txt shown st = st\<lparr>displayText := txt, displayShown := shown\<rparr>"

text \<open>
  \<^verbatim>\<open>startCountdown\<close>; \<open>now\<close> is what \<^verbatim>\<open>Date.now()\<close> returns when the closure's
  \<^verbatim>\<open>lastTick\<close> is created.
\<close>

definition startCountdown :: "int \<Rightarrow> display_state \<Rightarrow> display_state" where
  "startCountdown now st =
     (if configuredTimerMode st \<noteq> Countdown then st
      else
        let st1 = (if remainingMs st \<le> 0
                   then st\<lparr>remainingMs := configuredDurationMs st\<rparr> else st)
        in if remainingMs st1 \<le> 0 then st1
           else (stopInterval (setDisplay (formatMs (remainingMs st1)) True st1))
                  \<lparr>timerInterval := Some now\<rparr>)"

text \<open>
  The callback given to \<^verbatim>\<open>setInterval\<close>; \<open>now\<close> is what \<^verbatim>\<open>Date.now()\<close> returns inside
  it. After \<^verbatim>\<open>clearInterval\<close> the callback does not run any more, so it leaves a state
  without a live interval as it is.
\<close>

definition intervalCallback :: "int \<Rightarrow> display_state \<Rightarrow> display_state" where
  "intervalCallback now st =
     (case timerInterval st of
        None \<Rightarrow> st
      | Some lastTick \<Rightarrow>
          let dt = now - lastTick;
              st1 = st\<lparr>timerInterval := Some now, remainingMs := remainingMs st - dt\<rparr>
          in if remainingMs st1 \<le> 0
             then setUrgent False
                    (stopInterval (setDisplay ''00:00'' True (st1\<lparr>remainingMs := 0\<rparr>)))
             else syncUrgentClass (setDisplay (formatMs (remainingMs st1)) True st1))"

definition pauseCountdown :: "display_state \<Rightarrow> display_state" where
  "pauseCountdown st =
     (let st1 = stopInterval st
      in syncUrgentClass (setDisplay (formatMs (remainingMs st1)) (remainingMs st1 > 0) st1))"

definition resetCountdown :: "display_state \<Rightarrow> display_state" where
  "resetCountdown st =
     (let st1 = (stopInterval st)\<lparr>remainingMs := configuredDurationMs st\<rparr>;
          st2 = (if configuredTimerMode st1 = Countdown \<and> remainingMs st1 > 0
                 then setDisplay (formatMs (remainingMs st1)) True st1
                 else setDisplay ''00:00'' False st1)
      in syncUrgentClass st2)"

definition setTimerMode :: "timer_mode \<Rightarrow> display_state \<Rightarrow> display_state" where
  "setTimerMode mode st =
     (if mode = Off
      then setUrgent False (setDisplay ''00:00'' False ((stopInterval st)\<lparr>remainingMs := 0\<rparr>))
      else if timerInterval st = None
      then
        let st1 = (if remainingMs st \<le> 0
                   then st\<lparr>remainingMs := configuredDurationMs st\<rparr> else st)
        in if remainingMs st1 > 0 then setDisplay (formatMs (remainingMs st1)) True st1
           else setDisplay ''00:00'' False st1
      else st)"

subsection \<open>Applying a snapshot\<close>

text \<open>The expression bound to \<^verbatim>\<open>newDurationMs\<close> in \<^verbatim>\<open>applySettings\<close>.\<close>

definition newDurationMs :: "AppSettings \<Rightarrow> int" where
  "newDurationMs s = max 0 ((timerMin s * 60 + min 59 (max 0 (timerSec s))) * 1000)"

definition applySettings :: "AppSettings \<Rightarrow> display_state \<Rightarrow> display_state" where
  "applySettings s st =
     (let st1 = st\<lparr>appBg := themeValue (bg s), appText := themeValue (textColor s),
                    subtitleColorVar := themeValue (subtitleColor s)\<rparr>;
          st2 = setTextContent (titleText s) (subtitleText s) st1;
          newMode = timerMode s;
          newDur = newDurationMs s;
          modeChanged = (newMode \<noteq> configuredTimerMode st2);
          durationChanged = (newDur \<noteq> configuredDurationMs st2);
          st3 = st2\<lparr>configuredTimerMode := newMode, configuredDurationMs := newDur\<rparr>;
          st4 = setTimerMode (configuredTimerMode st3) st3
      in if configuredTimerMode st4 = Countdown \<and> (modeChanged \<or> durationChanged)
         then resetCountdown st4 else st4)"

subsection \<open>Events of the display surface\<close>

text \<open>
  What the display surface reacts to after start-up: a snapshot on
  \<^verbatim>\<open>settings:changed\<close>, the three timer commands, and the interval firing. The two
  events that read the clock carry the value \<^verbatim>\<open>Date.now()\<close> returns.
\<close>

datatype event =
    SettingsChanged AppSettings
  | TimerStart int
  | TimerPause
  | TimerReset
  | IntervalFired int

fun step :: "event \<Rightarrow> display_state \<Rightarrow> display_state" where
  "step (SettingsChanged s) st = applySettings s st"
| "step (TimerStart now) st = startCountdown now st"
| "step TimerPause st = pauseCountdown st"
| "step TimerReset st = resetCountdown st"
| "step (IntervalFired now) st = intervalCallback now st"

fun run :: "event list \<Rightarrow> display_state \<Rightarrow> display_state" where
  "run [] st = st"
| "run (e # es) st = run es (step e st)"

text \<open>
  A sequence of interval firings given by its deltas: each firing happens \<open>d\<close>
  milliseconds after the previous reading of the clock. Once the interval is cleared no
  further firing happens.
\<close>

definition tickBy :: "int \<Rightarrow> display_state \<Rightarrow> display_state" where
  "tickBy d st =
     (case timerInterval st of None \<Rightarrow> st | Some lastTick \<Rightarrow> intervalCallback (lastTick + d) st)"

fun ticks :: "int list \<Rightarrow> display_state \<Rightarrow> display_state" where
  "ticks [] st = st"
| "ticks (d # ds) st = ticks ds (tickBy d st)"

text \<open>
  The engine before any snapshot: the initialisers of the module-level variables, and no
  \<^verbatim>\<open>timer-urgent\<close> class, which only \<^verbatim>\<open>setUrgent\<close> ever adds.
\<close>

definition engine_initial :: "display_state \<Rightarrow> bool" where
  "engine_initial st \<longleftrightarrow>
     configuredTimerMode st = Off \<and> configuredDurationMs st = 0 \<and> timerInterval st = None
     \<and> remainingMs st = 0 \<and> \<not> urgent st"

definition initial_display :: display_state where
  "initial_display =
     \<lparr>configuredTimerMode = Off, configuredDurationMs = 0, timerInterval = None,
      remainingMs = 0, urgent = False, displayText = [], displayShown = False,
      appBg = [], appText = [], subtitleColorVar = [], titleShown = [], subtitleShown = []\<rparr>"

section \<open>Settings store\<close>

text \<open>
  \<^verbatim>\<open>localStorage\<close> is a map from keys to strings. \<^verbatim>\<open>getItem(k) ?? d\<close> is \<open>getOr\<close>.
\<close>

type_synonym storage = "string \<rightharpoonup> string"

definition getOr :: "storage \<Rightarrow> string \<Rightarrow> string \<Rightarrow> string" where
  "getOr store k d = (case store k of None \<Rightarrow> d | Some v \<Rightarrow> v)"

text \<open>
  \<^verbatim>\<open>Number(s)\<close> on a stored string, for the strings this model covers: the empty string
  and plain decimal integers with an optional minus sign. \<open>None\<close> stands for every other
  string, whose value (\<^verbatim>\<open>NaN\<close>, a fraction, another literal form) is not represented.
\<close>

definition is_digit :: "char \<Rightarrow> bool" where
  "is_digit c \<longleftrightarrow> c \<in> set ''0123456789''"

definition digit_value :: "char \<Rightarrow> nat" where
  "digit_value c = of_char c - 48"

definition decimal_value :: "string \<Rightarrow> nat" where
  "decimal_value cs = foldl (\<lambda>acc c. acc * 10 + digit_value c) 0 cs"

definition Number_of :: "string \<Rightarrow> int option" where
  "Number_of s =
     (case s of
        [] \<Rightarrow> Some 0
      | c # cs \<Rightarrow>
          if c = CHR ''-'' \<and> cs \<noteq> [] \<and> list_all is_digit cs then Some (- int (decimal_value cs))
          else if list_all is_digit s then Some (int (decimal_value s))
          else None)"

text \<open>
  The cast \<^verbatim>\<open>as AppSettings["timerMode"]\<close> is unchecked; \<open>None\<close> stands for a stored
  string outside the type.
\<close>

definition mode_of :: "string \<Rightarrow> timer_mode option" where
  "mode_of s = (if s = ''off'' then Some Off else if s = ''countdown'' then Some Countdown else None)"

definition mode_string :: "timer_mode \<Rightarrow> string" where
  "mode_string m = (case m of Off \<Rightarrow> ''off'' | Countdown \<Rightarrow> ''countdown'')"

text \<open>\<^verbatim>\<open>readStoredSettings\<close> of the display surface (\<^verbatim>\<open>src/main.ts\<close>).\<close>

definition readStoredSettings :: "storage \<Rightarrow> AppSettings option" where
  "readStoredSettings store =
     (case (mode_of (getOr store ''timerMode'' ''off''),
            Number_of (getOr store ''timerMin'' ''5''),
            Number_of (getOr store ''timerSec'' ''0'')) of
        (Some m, Some mins, Some secs) \<Rightarrow>
          Some \<lparr>bg = getOr store ''bg'' ''turquoise'',
                titleText = getOr store ''titleText'' ''ATTENTION'',
                textColor = getOr store ''text'' ''navy'',
                subtitleText = getOr store ''subtitleText'' ''CHECK YOUR ZOOM CHAT'',
                subtitleColor = getOr store ''subtitleColor'' ''navy'',
                timerMode = m, timerMin = mins, timerSec = secs\<rparr>
      | _ \<Rightarrow> None)"

text \<open>
  On \<^verbatim>\<open>DOMContentLoaded\<close> the display surface applies the stored settings, and only then
  starts to listen for commands and snapshots.
\<close>

definition bootDisplay :: "storage \<Rightarrow> display_state \<Rightarrow> display_state option" where
  "bootDisplay store st = map_option (\<lambda>s. applySettings s st) (readStoredSettings store)"

text \<open>\<^verbatim>\<open>readStoredSettings\<close> of the control surface (\<^verbatim>\<open>src/settings.ts\<close>).\<close>

definition readStoredSettings_settings :: "storage \<Rightarrow> AppSettings option" where
  "readStoredSettings_settings store =
     (case (mode_of (getOr store ''timerMode'' ''off''),
            Number_of (getOr store ''timerMin'' ''5''),
            Number_of (getOr store ''timerSec'' ''0'')) of
        (Some m, Some mins, Some secs) \<Rightarrow>
          Some \<lparr>bg = getOr store ''bg'' ''turquoise'',
                titleText = getOr store ''titleText'' ''ATTENTION'',
                textColor = getOr store ''text'' ''navy'',
                subtitleText = getOr store ''subtitleText'' ''CHECK YOUR ZOOM CHAT'',
                subtitleColor = getOr store ''subtitleColor'' ''white'',
                timerMode = m, timerMin = mins, timerSec = secs\<rparr>
      | _ \<Rightarrow> None)"

text \<open>
  \<^verbatim>\<open>localStorage.setItem\<close> can throw (quota, security). Whether the store takes a
  given key and value is a parameter \<open>accepts\<close>; a throw ends \<^verbatim>\<open>writeStoredSettings\<close>
  and leaves the entries written so far.
\<close>

datatype outcome = Completed | Threw

fun setItems :: "(string \<Rightarrow> string \<Rightarrow> bool) \<Rightarrow> (string \<times> string) list \<Rightarrow> storage
                 \<Rightarrow> outcome \<times> storage" where
  "setItems accepts [] store = (Completed, store)"
| "setItems accepts ((k, v) # kvs) store =
     (if accepts k v then setItems accepts kvs (store(k \<mapsto> v)) else (Threw, store))"

definition String_of :: "int \<Rightarrow> string" where
  "String_of n = (if n < 0 then ''-'' @ digits_of (nat (- n)) else digits_of (nat n))"

definition storedEntries :: "AppSettings \<Rightarrow> (string \<times> string) list" where
  "storedEntries s =
     [(''bg'', bg s), (''text'', textColor s), (''titleText'', titleText s),
      (''subtitleText'', subtitleText s), (''subtitleColor'', subtitleColor s),
      (''timerMode'', mode_string (timerMode s)),
      (''timerMin'', String_of (timerMin s)), (''timerSec'', String_of (timerSec s))]"

definition writeStoredSettings :: "(string \<Rightarrow> string \<Rightarrow> bool) \<Rightarrow> AppSettings \<Rightarrow> storage
                                   \<Rightarrow> outcome \<times> storage" where
  "writeStoredSettings accepts s store = setItems accepts (storedEntries s) store"

section \<open>Control surface publisher (\<^verbatim>\<open>src/settings.ts\<close>)\<close>

subsection \<open>State\<close>

text \<open>
  The later of the two versions of \<^verbatim>\<open>src/settings.ts\<close> in the repository, the one with
  title and subtitle. The state holds the form controls that \<^verbatim>\<open>snapshotSettings\<close> reads, the closure variables
  \<^verbatim>\<open>pendingTimer\<close> and \<^verbatim>\<open>lastSent\<close>, the store, and a log of what happened on the bus:
  \<open>emitted\<close> lists the payloads of the calls \<^verbatim>\<open>emit("settings:changed", next)\<close> in order,
  \<open>consoleErrors\<close> counts the rejected ones, which \<^verbatim>\<open>.catch(console.error)\<close> logs.

  The two number inputs hold \<open>None\<close> when empty (\<^verbatim>\<open>timerMin.value || 0\<close> is then 0) and
  \<open>Some n\<close> when they show the integer \<open>n\<close>; other contents are not represented.
\<close>

record control_state =
  bgSelect :: string
  titleInput :: string
  textSelect :: string
  subtitleInput :: string
  subtitleColorSelect :: string
  timerModeSelect :: string
  timerMinInput :: "int option"
  timerSecInput :: "int option"
  pendingTimer :: "nat option"
  lastSent :: string
  localStorage :: storage
  emitted :: "AppSettings list"
  consoleErrors :: nat

text \<open>What the surroundings decide at one publish attempt.\<close>

record environment =
  storeAccepts :: "string \<Rightarrow> string \<Rightarrow> bool"
  busAccepts :: bool

subsection \<open>Snapshot and serialisation\<close>

text \<open>\<^verbatim>\<open>clampInt\<close>; \<^verbatim>\<open>Math.floor\<close> changes no integer.\<close>

definition clampInt :: "int \<Rightarrow> int \<Rightarrow> int \<Rightarrow> int" where
  "clampInt n lo hi = min hi (max lo n)"

definition inputNumber :: "int option \<Rightarrow> int" where
  "inputNumber v = (case v of None \<Rightarrow> 0 | Some n \<Rightarrow> n)"

definition snapshotSettings :: "control_state \<Rightarrow> AppSettings \<times> control_state" where
  "snapshotSettings st =
     (let next = \<lparr>bg = bgSelect st,
                  titleText = titleInput st,
                  textColor = textSelect st,
                  subtitleText = subtitleInput st,
                  subtitleColor = subtitleColorSelect st,
                  timerMode = (if timerModeSelect st = ''countdown'' then Countdown else Off),
                  timerMin = clampInt (inputNumber (timerMinInput st)) 0 9999,
                  timerSec = clampInt (inputNumber (timerSecInput st)) 0 59\<rparr>
      in (next, st\<lparr>timerMinInput := Some (timerMin next),
                    timerSecInput := Some (timerSec next)\<rparr>))"

text \<open>
  \<^verbatim>\<open>JSON.stringify\<close> on a snapshot: the members in the order of the object literal in
  \<^verbatim>\<open>snapshotSettings\<close>, strings quoted with the escapes of the JSON grammar.
\<close>

definition hex_char :: "nat \<Rightarrow> char" where
  "hex_char d = ''0123456789abcdef'' ! d"

definition json_escape :: "char \<Rightarrow> string" where
  "json_escape c =
     (if c = CHR 0x22 then [CHR 0x5C, CHR 0x22]
      else if c = CHR 0x5C then [CHR 0x5C, CHR 0x5C]
      else if c = CHR 0x08 then [CHR 0x5C, CHR ''b'']
      else if c = CHR 0x0C then [CHR 0x5C, CHR ''f'']
      else if c = CHR 0x0A then [CHR 0x5C, CHR ''n'']
      else if c = CHR 0x0D then [CHR 0x5C, CHR ''r'']
      else if c = CHR 0x09 then [CHR 0x5C, CHR ''t'']
      else if (of_char c :: nat) < 32
      then [CHR 0x5C, CHR ''u'', CHR ''0'', CHR ''0'',
            hex_char (of_char c div 16), hex_char (of_char c mod 16)]
      else [c])"

definition json_string :: "string \<Rightarrow> string" where
  "json_string s = [CHR 0x22] @ concat (map json_escape s) @ [CHR 0x22]"

definition json_member :: "string \<Rightarrow> string \<Rightarrow> string" where
  "json_member k v = json_string k @ '':'' @ v"

definition JSON_stringify :: "AppSettings \<Rightarrow> string" where
  "JSON_stringify s =
     ''{'' @ json_member ''bg'' (json_string (bg s))
     @ '','' @ json_member ''titleText'' (json_string (titleText s))
     @ '','' @ json_member ''text'' (json_string (textColor s))
     @ '','' @ json_member ''subtitleText'' (json_string (subtitleText s))
     @ '','' @ json_member ''subtitleColor'' (json_string (subtitleColor s))
     @ '','' @ json_member ''timerMode'' (json_string (mode_string (timerMode s)))
     @ '','' @ json_member ''timerMin'' (String_of (timerMin s))
     @ '','' @ json_member ''timerSec'' (String_of (timerSec s))
     @ ''}''"

subsection \<open>Publishing\<close>

text \<open>
  \<^verbatim>\<open>pushNow\<close>. The result says whether the call returned or an exception left it; the
  state is the one the exception leaves behind.
\<close>

definition emitSettings :: "environment \<Rightarrow> AppSettings \<Rightarrow> control_state \<Rightarrow> control_state" where
  "emitSettings env next st =
     (let st1 = st\<lparr>emitted := emitted st @ [next]\<rparr>
      in if busAccepts env then st1 else st1\<lparr>consoleErrors := consoleErrors st1 + 1\<rparr>)"

definition pushNow :: "environment \<Rightarrow> control_state \<Rightarrow> outcome \<times> control_state" where
  "pushNow env st =
     (let (next, st1) = snapshotSettings st;
          key = JSON_stringify next
      in if key = lastSent st1 then (Completed, st1)
         else
           let st2 = st1\<lparr>lastSent := key\<rparr>
           in case writeStoredSettings (storeAccepts env) next (localStorage st2) of
                (Threw, store') \<Rightarrow> (Threw, st2\<lparr>localStorage := store'\<rparr>)
              | (Completed, store') \<Rightarrow>
                  (Completed, emitSettings env next (st2\<lparr>localStorage := store'\<rparr>)))"

text \<open>
  \<^verbatim>\<open>queuePush\<close> and the callback it schedules. \<open>pendingTimer\<close> holds the delay of the
  pending timeout; scheduling a new one replaces it.
\<close>

definition queuePush :: "nat \<Rightarrow> control_state \<Rightarrow> control_state" where
  "queuePush delayMs st = st\<lparr>pendingTimer := Some delayMs\<rparr>"

definition timeoutFired :: "environment \<Rightarrow> control_state \<Rightarrow> outcome \<times> control_state" where
  "timeoutFired env st =
     (case pendingTimer st of
        None \<Rightarrow> (Completed, st)
      | Some d \<Rightarrow> pushNow env (st\<lparr>pendingTimer := None\<rparr>))"

subsection \<open>Events of the control surface\<close>

text \<open>
  A user edit changes one form control; the handlers then call \<^verbatim>\<open>queuePush\<close>. The
  timeout fires later, and the start and reset buttons and the initial sync call
  \<^verbatim>\<open>pushNow\<close> directly. An exception that leaves a handler ends that handler only, so
  the next event starts from the state it left.
\<close>

datatype edit =
    EditBg string
  | EditTitle string
  | EditText string
  | EditSubtitle string
  | EditSubtitleColor string
  | EditTimerMode string
  | EditTimerMin "int option"
  | EditTimerSec "int option"

fun apply_edit :: "edit \<Rightarrow> control_state \<Rightarrow> control_state" where
  "apply_edit (EditBg v) st = st\<lparr>bgSelect := v\<rparr>"
| "apply_edit (EditTitle v) st = st\<lparr>titleInput := v\<rparr>"
| "apply_edit (EditText v) st = st\<lparr>textSelect := v\<rparr>"
| "apply_edit (EditSubtitle v) st = st\<lparr>subtitleInput := v\<rparr>"
| "apply_edit (EditSubtitleColor v) st = st\<lparr>subtitleColorSelect := v\<rparr>"
| "apply_edit (EditTimerMode v) st = st\<lparr>timerModeSelect := v\<rparr>"
| "apply_edit (EditTimerMin v) st = st\<lparr>timerMinInput := v\<rparr>"
| "apply_edit (EditTimerSec v) st = st\<lparr>timerSecInput := v\<rparr>"

datatype control_event =
    UserEdit edit
  | QueuePush nat
  | TimeoutFired environment
  | PushNow environment

fun control_step :: "control_event \<Rightarrow> control_state \<Rightarrow> control_state" where
  "control_step (UserEdit e) st = apply_edit e st"
| "control_step (QueuePush d) st = queuePush d st"
| "control_step (TimeoutFired env) st = snd (timeoutFired env st)"
| "control_step (PushNow env) st = snd (pushNow env st)"

fun control_run :: "control_event list \<Rightarrow> control_state \<Rightarrow> control_state" where
  "control_run [] st = st"
| "control_run (e # es) st = control_run es (control_step e st)"

fun is_edit :: "control_event \<Rightarrow> bool" where
  "is_edit (UserEdit e) = True"
| "is_edit _ = False"

fun store_ok :: "control_event \<Rightarrow> bool" where
  "store_ok (TimeoutFired env) = (\<forall>k v. storeAccepts env k v)"
| "store_ok (PushNow env) = (\<forall>k v. storeAccepts env k v)"
| "store_ok _ = True"

text \<open>The surroundings in which nothing fails.\<close>

definition allOk :: environment where
  "allOk = \<lparr>storeAccepts = (\<lambda>k v. True), busAccepts = True\<rparr>"

section \<open>The specification's formulas\<close>

text \<open>
  The urgent predicate, the configured duration and the total of whole seconds as the
  specification words them, to be compared with what the code computes.
\<close>

definition spec_urgent :: "display_state \<Rightarrow> bool" where
  "spec_urgent st \<longleftrightarrow>
     configuredTimerMode st = Countdown \<and> 0 < remainingMs st \<and> remainingMs st \<le> 300000"

definition spec_durationMs :: "AppSettings \<Rightarrow> int" where
  "spec_durationMs s = max 0 ((max 0 (timerMin s) * 60 + min 59 (max 0 (timerSec s))) * 1000)"

definition spec_totalSec :: "int \<Rightarrow> int" where
  "spec_totalSec ms = max 0 \<lceil>real_of_int ms / 1000\<rceil>"

definition urgent_inv :: "display_state \<Rightarrow> bool" where
  "urgent_inv st \<longleftrightarrow> (urgent st \<longrightarrow> spec_urgent st)"

section \<open>Reachable states and concrete inputs\<close>

text \<open>
  Every state the display surface reaches keeps \<open>remainingMs\<close> and the configured
  duration at or above zero.
\<close>

definition nonneg :: "display_state \<Rightarrow> bool" where
  "nonneg st \<longleftrightarrow> 0 \<le> remainingMs st \<and> 0 \<le> configuredDurationMs st"

text \<open>Snapshots and states used to evaluate the theorems below.\<close>

definition snapshot_5min :: AppSettings where
  "snapshot_5min =
     \<lparr>bg = ''turquoise'', titleText = ''ATTENTION'', textColor = ''navy'',
      subtitleText = ''CHECK YOUR ZOOM CHAT'', subtitleColor = ''navy'',
      timerMode = Countdown, timerMin = 5, timerSec = 0\<rparr>"

definition snapshot_1s :: AppSettings where
  "snapshot_1s = snapshot_5min\<lparr>timerMin := 0, timerSec := 1\<rparr>"

definition snapshot_inert :: AppSettings where
  "snapshot_inert = snapshot_5min\<lparr>timerMin := 0, timerSec := 0\<rparr>"

definition snapshot_negative :: AppSettings where
  "snapshot_negative = snapshot_5min\<lparr>timerMin := - 1, timerSec := 59\<rparr>"

definition running_250s :: display_state where
  "running_250s =
     run [SettingsChanged snapshot_5min, TimerStart 1000, IntervalFired 51000] initial_display"

definition armed_1s :: display_state where
  "armed_1s = run [SettingsChanged snapshot_1s] initial_display"

definition expired_1s :: display_state where
  "expired_1s =
     run [SettingsChanged snapshot_1s, TimerStart 1000, IntervalFired 2000] initial_display"

text \<open>
  The publisher at start-up, the equality gate read as "last emitted", a publisher whose
  form serialises to \<open>lastSent\<close>, and two states with the same observable effects.
\<close>

definition startup :: "control_state \<Rightarrow> bool" where
  "startup st \<longleftrightarrow> lastSent st = [] \<and> emitted st = [] \<and> pendingTimer st = None"

definition gate_inv :: "control_state \<Rightarrow> bool" where
  "gate_inv st \<longleftrightarrow> lastSent st = (if emitted st = [] then [] else JSON_stringify (last (emitted st)))"

definition settled :: "control_state \<Rightarrow> bool" where
  "settled st \<longleftrightarrow> JSON_stringify (fst (snapshotSettings st)) = lastSent st"

definition same_effects :: "control_state \<Rightarrow> control_state \<Rightarrow> bool" where
  "same_effects a b \<longleftrightarrow> localStorage a = localStorage b \<and> emitted a = emitted b
     \<and> consoleErrors a = consoleErrors b \<and> lastSent a = lastSent b"

text \<open>
  A control surface showing the defaults right after start-up, a store that refuses every
  write, a bus that rejects the emission, and two event sequences.
\<close>

definition form_defaults :: control_state where
  "form_defaults =
     \<lparr>bgSelect = ''turquoise'', titleInput = ''ATTENTION'', textSelect = ''navy'',
      subtitleInput = ''CHECK YOUR ZOOM CHAT'', subtitleColorSelect = ''white'',
      timerModeSelect = ''off'', timerMinInput = Some 5, timerSecInput = Some 0,
      pendingTimer = None, lastSent = [], localStorage = Map.empty, emitted = [],
      consoleErrors = 0\<rparr>"

definition storeFull :: environment where
  "storeFull = \<lparr>storeAccepts = (\<lambda>k v. False), busAccepts = True\<rparr>"

definition busDown :: environment where
  "busDown = \<lparr>storeAccepts = (\<lambda>k v. True), busAccepts = False\<rparr>"

definition typing_title :: "control_event list" where
  "typing_title =
     [PushNow allOk, UserEdit (EditTitle ''QUIET''), QueuePush 150,
      UserEdit (EditTitle ''QUIET PLEASE''), QueuePush 150, TimeoutFired allOk,
      QueuePush 0, TimeoutFired allOk]"

definition retries :: "control_event list" where
  "retries = [QueuePush 0, TimeoutFired allOk, PushNow allOk, QueuePush 150, TimeoutFired allOk]"

text \<open>
  A form with every control changed from its default and the seconds out of range, and
  the publisher after a publish, an edit whose store write is refused, and the edit
  taken back.
\<close>

definition form_edited :: control_state where
  "form_edited =
     form_defaults\<lparr>bgSelect := ''navy'', titleInput := ''QUIET'', textSelect := ''white'',
                    subtitleInput := [], subtitleColorSelect := ''turquoise'',
                    timerModeSelect := ''countdown'', timerMinInput := Some 12,
                    timerSecInput := Some 75\<rparr>"

definition failed_then_reverted :: control_state where
  "failed_then_reverted =
     control_run [PushNow allOk, UserEdit (EditTitle ''QUIET''), PushNow storeFull,
                  UserEdit (EditTitle ''ATTENTION'')] form_defaults"

section \<open>Display formatting\<close>

text \<open>
  The integer ceiling of \<open>formatMs\<close> is the ceiling of the quotient, and the digits that
  \<open>pad2\<close> writes read back as the number.
\<close>

lemma ceil_div_1000: "ceil_div ms 1000 = \<lceil>real_of_int ms / 1000\<rceil>"
proof -
  have "\<lceil>real_of_int ms / real_of_int 1000\<rceil> = - (- ms div 1000)"
    by (rule ceiling_divide_eq_div)
  then show ?thesis by (simp add: ceil_div_def)
qed

lemma digit_value_digit_char: "d < 10 \<Longrightarrow> digit_value (digit_char d) = d"
proof -
  assume "d < 10"
  then have "d \<in> {0,1,2,3,4,5,6,7,8,9}" by auto
  then show ?thesis
    by (auto simp: digit_value_def digit_char_def)
qed

lemma is_digit_digit_char: "d < 10 \<Longrightarrow> is_digit (digit_char d)"
proof -
  assume "d < 10"
  then have "d \<in> {0,1,2,3,4,5,6,7,8,9}" by auto
  then show ?thesis
    by (auto simp: is_digit_def digit_char_def)
qed

lemma decimal_value_snoc: "decimal_value (cs @ [c]) = decimal_value cs * 10 + digit_value c"
  by (simp add: decimal_value_def)

lemma decimal_value_digits_of: "decimal_value (digits_of n) = n"
proof (induction n rule: digits_of.induct)
  case (1 n)
  show ?case
  proof (cases "n < 10")
    case True
    then show ?thesis
      by (subst digits_of.simps) (simp add: decimal_value_def digit_value_digit_char)
  next
    case False
    then have "decimal_value (digits_of (n div 10)) = n div 10" using 1 by simp
    with False show ?thesis
      by (subst digits_of.simps) (simp add: decimal_value_snoc digit_value_digit_char)
  qed
qed

lemma is_digit_digits_of: "list_all is_digit (digits_of n)"
proof (induction n rule: digits_of.induct)
  case (1 n)
  show ?case
  proof (cases "n < 10")
    case True
    then show ?thesis by (subst digits_of.simps) (simp add: is_digit_digit_char)
  next
    case False
    with 1 show ?thesis by (subst digits_of.simps) (simp add: is_digit_digit_char)
  qed
qed

lemma length_digits_of_pos: "0 < length (digits_of n)"
  by (subst digits_of.simps) simp

lemma length_digits_of_small: "n < 100 \<Longrightarrow> length (digits_of n) \<le> 2"
proof -
  assume n: "n < 100"
  show ?thesis
  proof (cases "n < 10")
    case True
    then show ?thesis by (subst digits_of.simps) simp
  next
    case False
    have "n div 10 < 10" using n by simp
    then have "length (digits_of (n div 10)) = 1" by (subst digits_of.simps) simp
    with False show ?thesis by (subst digits_of.simps) simp
  qed
qed

lemma decimal_value_zeros: "decimal_value (replicate k (CHR ''0'') @ cs) = decimal_value cs"
proof -
  have "foldl (\<lambda>acc c. acc * 10 + digit_value c) 0 (replicate k (CHR ''0'')) = 0"
    by (induction k) (simp_all add: digit_value_def)
  then show ?thesis by (simp add: decimal_value_def)
qed

lemma decimal_value_pad2: "0 \<le> n \<Longrightarrow> int (decimal_value (pad2 n)) = n"
  by (simp add: pad2_def padStart_def decimal_value_zeros decimal_value_digits_of)

lemma is_digit_pad2: "list_all is_digit (pad2 n)"
proof -
  have "is_digit (CHR ''0'')" by (simp add: is_digit_def)
  then have "list_all is_digit (replicate k (CHR ''0''))" for k
    by (simp add: list_all_iff)
  then show ?thesis
    by (simp add: pad2_def padStart_def is_digit_digits_of)
qed

lemma length_pad2_ge: "2 \<le> length (pad2 n)"
  by (simp add: pad2_def padStart_def)

lemma length_pad2_small: "n < 100 \<Longrightarrow> length (pad2 n) = 2"
proof -
  assume "n < 100"
  then have "nat (max 0 n) < 100" by simp
  from length_digits_of_small[OF this] show ?thesis
    by (simp add: pad2_def padStart_def)
qed

lemma formatMs_parts:
  "formatMs ms = pad2 (spec_totalSec ms div 60) @ '':'' @ pad2 (spec_totalSec ms mod 60)"
  by (simp add: formatMs_def Let_def spec_totalSec_def ceil_div_1000)

lemma spec_totalSec_nonneg: "0 \<le> spec_totalSec ms"
  by (simp add: spec_totalSec_def)

lemma spec_totalSec_pos: "0 < ms \<Longrightarrow> 0 < spec_totalSec ms"
  by (simp add: spec_totalSec_def)

lemma formatMs_shape:
  "\<exists>mm ss. formatMs ms = mm @ '':'' @ ss \<and> list_all is_digit mm \<and> list_all is_digit ss
     \<and> 2 \<le> length mm \<and> length ss = 2 \<and> decimal_value ss < 60
     \<and> int (decimal_value mm) * 60 + int (decimal_value ss) = spec_totalSec ms
     \<and> (spec_totalSec ms < 6000 \<longrightarrow> length mm = 2)"
proof -
  let ?t = "spec_totalSec ms"
  have t: "0 \<le> ?t" by (rule spec_totalSec_nonneg)
  have m: "0 \<le> ?t div 60" using t by simp
  have s: "0 \<le> ?t mod 60" "?t mod 60 < 60" by simp_all
  have vs: "int (decimal_value (pad2 (?t mod 60))) = ?t mod 60"
    using s(1) by (rule decimal_value_pad2)
  have vm: "int (decimal_value (pad2 (?t div 60))) = ?t div 60"
    using m by (rule decimal_value_pad2)
  have ls: "length (pad2 (?t mod 60)) = 2"
    by (rule length_pad2_small) simp
  have lm: "?t < 6000 \<longrightarrow> length (pad2 (?t div 60)) = 2"
  proof
    assume "?t < 6000"
    then have "?t div 60 < 100" by simp
    then show "length (pad2 (?t div 60)) = 2" by (rule length_pad2_small)
  qed
  have lt: "decimal_value (pad2 (?t mod 60)) < 60" using vs s(2) by linarith
  have total: "int (decimal_value (pad2 (?t div 60))) * 60 + int (decimal_value (pad2 (?t mod 60))) = ?t"
    unfolding vs vm by simp
  show ?thesis
    using formatMs_parts[of ms] is_digit_pad2 length_pad2_ge ls lt total lm by blast
qed

lemma formatMs_not_zero: "0 < ms \<Longrightarrow> formatMs ms \<noteq> ''00:00''"
proof
  assume pos: "0 < ms" and eq: "formatMs ms = ''00:00''"
  let ?t = "spec_totalSec ms"
  have ls: "length (pad2 (?t mod 60)) = 2" by (rule length_pad2_small) simp
  have "pad2 (?t div 60) @ '':'' @ pad2 (?t mod 60) = ''00'' @ '':'' @ ''00''"
    using eq formatMs_parts[of ms] by simp
  then have "(pad2 (?t div 60) @ '':'') @ pad2 (?t mod 60) = (''00'' @ '':'') @ ''00''"
    by simp
  then have parts: "pad2 (?t div 60) @ '':'' = ''00'' @ '':'' \<and> pad2 (?t mod 60) = ''00''"
    using ls by (subst (asm) append_eq_append_conv) simp_all
  then have p1: "pad2 (?t div 60) = ''00''" and p2: "pad2 (?t mod 60) = ''00''" by simp_all
  have "int (decimal_value (pad2 (?t div 60))) = ?t div 60"
    by (rule decimal_value_pad2) (simp add: spec_totalSec_nonneg pos_imp_zdiv_nonneg_iff)
  then have d0: "?t div 60 = 0" unfolding p1 by (simp add: decimal_value_def digit_value_def)
  have "int (decimal_value (pad2 (?t mod 60))) = ?t mod 60"
    by (rule decimal_value_pad2) simp
  then have m0: "?t mod 60 = 0" unfolding p2 by (simp add: decimal_value_def digit_value_def)
  have "?t = 0" using d0 m0 by (metis add.right_neutral mult_zero_right mult_div_mod_eq)
  with spec_totalSec_pos[OF pos] show False by simp
qed

text \<open>
  Claim C8. \<open>formatMs\<close> renders every \<open>remainingMs\<close> as minutes, a colon and seconds: both
  parts are decimal digits, the seconds are two digits below 60, the minutes are at least
  two digits (exactly two below 100 minutes), and together they denote
  \<open>ceil(remainingMs / 1000)\<close> clamped to at least 0. So \<open>formatMs\<close> never gives \<open>00:00\<close> for a
  positive \<open>remainingMs\<close>, and 60999, 60000 and 0 give \<open>01:01\<close>, \<open>01:00\<close> and \<open>00:00\<close>.
\<close>

theorem formatMs_rounds_up:
  "(\<exists>mm ss. formatMs ms = mm @ '':'' @ ss \<and> list_all is_digit mm \<and> list_all is_digit ss
      \<and> 2 \<le> length mm \<and> length ss = 2 \<and> decimal_value ss < 60
      \<and> int (decimal_value mm) * 60 + int (decimal_value ss) = spec_totalSec ms
      \<and> (spec_totalSec ms < 6000 \<longrightarrow> length mm = 2))
   \<and> (0 < ms \<longrightarrow> formatMs ms \<noteq> ''00:00'')
   \<and> formatMs 60999 = ''01:01'' \<and> formatMs 60000 = ''01:00'' \<and> formatMs 0 = ''00:00''"
proof -
  have e1: "formatMs 60999 = ''01:01''" by code_simp
  have e2: "formatMs 60000 = ''01:00''" by code_simp
  have e3: "formatMs 0 = ''00:00''" by code_simp
  show ?thesis
    using formatMs_shape[of ms] formatMs_not_zero[of ms] e1 e2 e3 by blast
qed

theorem formatMs_rounds_up_witness:
  "(0::int) < 1 \<and> formatMs 1 = ''00:01'' \<and> formatMs 1 \<noteq> ''00:00''
   \<and> spec_totalSec 1 < 6000 \<and> formatMs 5999001 = ''100:00''"
proof -
  have a: "formatMs 1 = ''00:01''" by code_simp
  have b: "formatMs 5999001 = ''100:00''" by code_simp
  have c: "spec_totalSec 1 < 6000" by (simp add: spec_totalSec_def)
  have "formatMs 1 \<noteq> ''00:00''" using formatMs_rounds_up[of 1] by simp
  with a b c show ?thesis by simp
qed

section \<open>Timer engine\<close>

lemmas engine_defs = setUrgent_def syncUrgentClass_def stopInterval_def setDisplay_def
  startCountdown_def intervalCallback_def pauseCountdown_def resetCountdown_def
  setTimerMode_def applySettings_def setTextContent_def

subsection \<open>Selective reset\<close>

lemma applySettings_keeps:
  assumes "configuredTimerMode st = Countdown" "timerInterval st = Some t"
    "remainingMs st = R" "0 < R"
    "timerMode s = configuredTimerMode st" "newDurationMs s = configuredDurationMs st"
  shows "remainingMs (applySettings s st) = R \<and> timerInterval (applySettings s st) = Some t"
  using assms by (simp add: engine_defs Let_def)

lemma applySettings_resets:
  assumes "timerMode s = Countdown"
    "timerMode s \<noteq> configuredTimerMode st \<or> newDurationMs s \<noteq> configuredDurationMs st"
  shows "remainingMs (applySettings s st) = newDurationMs s
         \<and> timerInterval (applySettings s st) = None"
  using assms by (auto simp add: engine_defs Let_def)

text \<open>
  Claim C1. A snapshot that arrives while the countdown runs with \<open>remainingMs = R > 0\<close>
  and whose mode and computed duration equal the stored ones leaves \<open>remainingMs = R\<close> and
  the interval, with its clock anchor, as they are; snapshots that agree on mode, minutes
  and seconds compute the same duration, so a cosmetic change is such a snapshot. A
  snapshot in countdown mode whose mode or computed duration differs from the stored
  ones sets \<open>remainingMs\<close> to the new duration and clears the interval.
\<close>

theorem selective_reset:
  "(configuredTimerMode st = Countdown \<and> timerInterval st = Some t \<and> remainingMs st = R \<and> 0 < R
      \<and> timerMode s = configuredTimerMode st \<and> newDurationMs s = configuredDurationMs st
     \<longrightarrow> remainingMs (applySettings s st) = R \<and> timerInterval (applySettings s st) = Some t)
   \<and> (timerMode s' = timerMode s \<and> timerMin s' = timerMin s \<and> timerSec s' = timerSec s
     \<longrightarrow> newDurationMs s' = newDurationMs s)
   \<and> (timerMode s = Countdown
      \<and> (timerMode s \<noteq> configuredTimerMode st \<or> newDurationMs s \<noteq> configuredDurationMs st)
     \<longrightarrow> remainingMs (applySettings s st) = newDurationMs s
         \<and> timerInterval (applySettings s st) = None)"
proof -
  have cosmetic: "timerMode s' = timerMode s \<and> timerMin s' = timerMin s \<and> timerSec s' = timerSec s
     \<longrightarrow> newDurationMs s' = newDurationMs s"
    by (simp add: newDurationMs_def)
  show ?thesis
    using applySettings_keeps[of st t R s] applySettings_resets[of s st] cosmetic by blast
qed

theorem selective_reset_witness:
  "configuredTimerMode running_250s = Countdown \<and> timerInterval running_250s = Some 51000
   \<and> remainingMs running_250s = 250000
   \<and> remainingMs (applySettings (snapshot_5min\<lparr>titleText := ''QUIET'', bg := ''navy''\<rparr>) running_250s)
       = 250000
   \<and> timerInterval (applySettings (snapshot_5min\<lparr>titleText := ''QUIET'', bg := ''navy''\<rparr>) running_250s)
       = Some 51000
   \<and> remainingMs (applySettings (snapshot_5min\<lparr>timerSec := 30\<rparr>) running_250s) = 330000
   \<and> timerInterval (applySettings (snapshot_5min\<lparr>timerSec := 30\<rparr>) running_250s) = None"
proof -
  let ?c = "snapshot_5min\<lparr>titleText := ''QUIET'', bg := ''navy''\<rparr>"
  let ?d = "snapshot_5min\<lparr>timerSec := 30\<rparr>"
  have st: "configuredTimerMode running_250s = Countdown" "timerInterval running_250s = Some 51000"
    "remainingMs running_250s = 250000" "configuredDurationMs running_250s = 300000"
    by code_simp+
  have c: "timerMode ?c = Countdown" "newDurationMs ?c = 300000"
    by (simp_all add: snapshot_5min_def newDurationMs_def)
  have d: "timerMode ?d = Countdown" "newDurationMs ?d = 330000"
    by (simp_all add: snapshot_5min_def newDurationMs_def)
  from selective_reset[of running_250s 51000 250000 ?c] st c
  have keep: "remainingMs (applySettings ?c running_250s) = 250000
     \<and> timerInterval (applySettings ?c running_250s) = Some 51000"
    by simp
  from selective_reset[of running_250s _ _ ?d] st d
  have reset: "remainingMs (applySettings ?d running_250s) = 330000
     \<and> timerInterval (applySettings ?d running_250s) = None"
    by simp
  from st keep reset show ?thesis by simp
qed

subsection \<open>Ticks\<close>

lemma ticks_stopped: "timerInterval st = None \<Longrightarrow> ticks ds st = st"
  by (induction ds) (simp_all add: tickBy_def)

lemma tickBy_running:
  assumes "timerInterval st = Some t0"
  shows "tickBy d st =
     (if remainingMs st - d \<le> 0
      then st\<lparr>timerInterval := None, remainingMs := 0, urgent := False,
              displayText := ''00:00'', displayShown := True\<rparr>
      else syncUrgentClass (st\<lparr>timerInterval := Some (t0 + d), remainingMs := remainingMs st - d,
              displayText := formatMs (remainingMs st - d), displayShown := True\<rparr>))"
  using assms by (simp add: tickBy_def engine_defs Let_def)

lemma tickBy_expire:
  assumes "timerInterval st = Some t0" "remainingMs st \<le> d"
  shows "remainingMs (tickBy d st) = 0 \<and> timerInterval (tickBy d st) = None \<and> \<not> urgent (tickBy d st)"
  using assms by (simp add: tickBy_running)

lemma tickBy_continue:
  assumes "timerInterval st = Some t0" "d < remainingMs st"
  shows "remainingMs (tickBy d st) = remainingMs st - d \<and> timerInterval (tickBy d st) = Some (t0 + d)"
  using assms by (simp add: tickBy_running syncUrgentClass_def setUrgent_def)

lemma ticks_closed_form:
  assumes "timerInterval st = Some t0" "remainingMs st = D" "0 < D" "\<forall>d\<in>set ds. 0 \<le> d"
  shows "(sum_list ds < D \<longrightarrow> remainingMs (ticks ds st) = D - sum_list ds \<and> timerInterval (ticks ds st) \<noteq> None)
       \<and> (D \<le> sum_list ds \<longrightarrow> remainingMs (ticks ds st) = 0 \<and> timerInterval (ticks ds st) = None \<and> \<not> urgent (ticks ds st))"
  using assms
proof (induction ds arbitrary: st t0 D)
  case Nil
  then show ?case by simp
next
  case (Cons d ds)
  have d0: "0 \<le> d" and rest: "\<forall>x\<in>set ds. 0 \<le> x" using Cons.prems(4) by simp_all
  have s0: "0 \<le> sum_list ds" using rest by (simp add: sum_list_nonneg)
  show ?case
  proof (cases "d < D")
    case True
    have step: "remainingMs (tickBy d st) = D - d" "timerInterval (tickBy d st) = Some (t0 + d)"
      using tickBy_continue[of st t0 d] Cons.prems(1,2) True by simp_all
    have "0 < D - d" using True by simp
    from Cons.IH[OF step(2) step(1) this rest] show ?thesis
      by (simp add: algebra_simps)
  next
    case False
    then have "remainingMs st \<le> d" using Cons.prems(2) by simp
    from tickBy_expire[OF Cons.prems(1) this]
    have e: "remainingMs (tickBy d st) = 0" "timerInterval (tickBy d st) = None" "\<not> urgent (tickBy d st)"
      by simp_all
    have "ticks ds (tickBy d st) = tickBy d st" using e(2) by (rule ticks_stopped)
    then show ?thesis using e False s0 by simp
  qed
qed

lemma startCountdown_running:
  assumes "configuredTimerMode st0 = Countdown" "configuredDurationMs st0 = D" "0 < D"
     "remainingMs st0 = D \<or> remainingMs st0 \<le> 0"
  shows "timerInterval (startCountdown now st0) = Some now \<and> remainingMs (startCountdown now st0) = D"
  using assms by (auto simp: engine_defs Let_def)

lemma set_take_nonneg: "\<forall>d\<in>set ds. (0::int) \<le> d \<Longrightarrow> \<forall>d\<in>set (take k ds). 0 \<le> d"
  by (meson in_set_takeD)

lemma sum_list_take_Suc: "k < length ds \<Longrightarrow> sum_list (take (Suc k) ds) = sum_list (take k ds) + (ds ! k :: int)"
  by (simp add: take_Suc_conv_app_nth)

text \<open>
  Claim C3. A countdown in mode countdown with configured duration \<open>D > 0\<close>, started at
  \<open>remainingMs = D\<close>, then receives interval firings with the non-negative deltas \<open>ds\<close>.
  After any \<open>k\<close> of them, with \<open>c\<close> the sum of the first \<open>k\<close> deltas: \<open>remainingMs\<close> is not
  negative; while \<open>c < D\<close> it is \<open>D - c\<close> and the interval is live, so each firing took
  off exactly its delta; from the first firing with \<open>c \<ge> D\<close> on it is exactly 0, the
  interval is cleared and \<open>urgent\<close> is false.
\<close>

theorem tick_semantics:
  assumes "configuredTimerMode st0 = Countdown" and "configuredDurationMs st0 = D" and "0 < D"
    and "remainingMs st0 = D \<or> remainingMs st0 \<le> 0" and "\<forall>d\<in>set ds. 0 \<le> d" and "k \<le> length ds"
  shows "let after = (\<lambda>n. ticks (take n ds) (startCountdown now st0)); c = sum_list (take k ds) in
      remainingMs (after 0) = D \<and> timerInterval (after 0) \<noteq> None \<and> 0 \<le> remainingMs (after k)
      \<and> (c < D \<longrightarrow> remainingMs (after k) = D - c \<and> timerInterval (after k) \<noteq> None)
      \<and> (D \<le> c \<longrightarrow> remainingMs (after k) = 0 \<and> timerInterval (after k) = None \<and> \<not> urgent (after k))
      \<and> (k < length ds \<and> sum_list (take (Suc k) ds) < D
            \<longrightarrow> remainingMs (after (Suc k)) = remainingMs (after k) - ds ! k)"
proof -
  let ?st = "startCountdown now st0"
  have run: "timerInterval ?st = Some now" "remainingMs ?st = D"
    using startCountdown_running[OF assms(1,2,3,4), of now] by simp_all
  have nn: "\<forall>d\<in>set (take n ds). 0 \<le> d" for n
    using assms(5) by (rule set_take_nonneg)
  have cf: "(sum_list (take n ds) < D \<longrightarrow> remainingMs (ticks (take n ds) ?st) = D - sum_list (take n ds)
                \<and> timerInterval (ticks (take n ds) ?st) \<noteq> None)
       \<and> (D \<le> sum_list (take n ds) \<longrightarrow> remainingMs (ticks (take n ds) ?st) = 0
                \<and> timerInterval (ticks (take n ds) ?st) = None \<and> \<not> urgent (ticks (take n ds) ?st))" for n
    using ticks_closed_form[OF run(1) run(2) assms(3) nn[of n]] .
  have nonneg_k: "0 \<le> remainingMs (ticks (take k ds) ?st)"
    using cf[of k] by (cases "sum_list (take k ds) < D") simp_all
  have stepk: "k < length ds \<and> sum_list (take (Suc k) ds) < D
      \<longrightarrow> remainingMs (ticks (take (Suc k) ds) ?st) = remainingMs (ticks (take k ds) ?st) - ds ! k"
  proof
    assume h: "k < length ds \<and> sum_list (take (Suc k) ds) < D"
    then have s: "sum_list (take (Suc k) ds) = sum_list (take k ds) + ds ! k"
      by (simp add: sum_list_take_Suc)
    have "0 \<le> ds ! k" using assms(5) h by simp
    then have lt: "sum_list (take k ds) < D" using h s by simp
    show "remainingMs (ticks (take (Suc k) ds) ?st) = remainingMs (ticks (take k ds) ?st) - ds ! k"
      using cf[of k] cf[of "Suc k"] h lt s by simp
  qed
  show ?thesis
    unfolding Let_def using run cf[of k] nonneg_k stepk by simp
qed

theorem tick_semantics_witness:
  "configuredTimerMode armed_1s = Countdown \<and> configuredDurationMs armed_1s = 1000
   \<and> remainingMs armed_1s = 1000
   \<and> remainingMs (ticks [90, 110, 100, 105] (startCountdown 0 armed_1s)) = 595
   \<and> remainingMs (ticks [90, 110, 100] (startCountdown 0 armed_1s)) = 700
   \<and> remainingMs (ticks [90, 110, 100, 105, 600] (startCountdown 0 armed_1s)) = 0
   \<and> timerInterval (ticks [90, 110, 100, 105, 600] (startCountdown 0 armed_1s)) = None
   \<and> \<not> urgent (ticks [90, 110, 100, 105, 600] (startCountdown 0 armed_1s))"
proof -
  have a: "configuredTimerMode armed_1s = Countdown" "configuredDurationMs armed_1s = 1000"
    "remainingMs armed_1s = 1000 \<or> remainingMs armed_1s \<le> 0" "remainingMs armed_1s = 1000"
    by code_simp+
  have p: "(0::int) < 1000" by simp
  have d: "\<forall>d\<in>set [90, 110, 100, 105, 600::int]. 0 \<le> d" by simp
  have k3: "(3::nat) \<le> length [90, 110, 100, 105, 600::int]" by simp
  have k5: "(5::nat) \<le> length [90, 110, 100, 105, 600::int]" by simp
  note t3 = tick_semantics[OF a(1) a(2) p a(3) d k3, of 0]
  note t5 = tick_semantics[OF a(1) a(2) p a(3) d k5, of 0]
  from t3 have "remainingMs (ticks [90, 110, 100] (startCountdown 0 armed_1s)) = 700
     \<and> remainingMs (ticks [90, 110, 100, 105] (startCountdown 0 armed_1s)) = 595"
    by (simp add: Let_def)
  moreover from t5 have "remainingMs (ticks [90, 110, 100, 105, 600] (startCountdown 0 armed_1s)) = 0
   \<and> timerInterval (ticks [90, 110, 100, 105, 600] (startCountdown 0 armed_1s)) = None
   \<and> \<not> urgent (ticks [90, 110, 100, 105, 600] (startCountdown 0 armed_1s))"
    by (simp add: Let_def)
  ultimately show ?thesis using a by simp
qed

subsection \<open>The urgent flag\<close>

lemma tick_urgent: "timerInterval st \<noteq> None \<Longrightarrow> urgent (intervalCallback now st) = spec_urgent (intervalCallback now st)"
  by (auto simp: engine_defs Let_def spec_urgent_def URGENT_MS_def split: option.splits)

lemma pause_urgent: "urgent (pauseCountdown st) = spec_urgent (pauseCountdown st)"
  by (auto simp: engine_defs Let_def spec_urgent_def URGENT_MS_def)

lemma reset_urgent: "urgent (resetCountdown st) = spec_urgent (resetCountdown st)"
  by (auto simp: engine_defs Let_def spec_urgent_def URGENT_MS_def)

lemma setoff_urgent: "urgent (setTimerMode Off st) = spec_urgent (setTimerMode Off st)"
  by (auto simp: engine_defs Let_def spec_urgent_def URGENT_MS_def)

lemma setTimerMode_Countdown_urgent: "urgent (setTimerMode Countdown st) = urgent st"
  by (auto simp: engine_defs Let_def)

text \<open>
  \<open>setTimerMode\<close> in countdown mode can re-arm an expired countdown and does not write the
  flag: here it stays false although the remaining time is within the last five minutes.
\<close>

lemma urgent_stale_after_rearm:
  "remainingMs expired_1s = 0 \<and> \<not> urgent expired_1s
   \<and> remainingMs (applySettings (snapshot_1s\<lparr>bg := ''navy''\<rparr>) expired_1s) = 1000
   \<and> \<not> urgent (applySettings (snapshot_1s\<lparr>bg := ''navy''\<rparr>) expired_1s)
   \<and> spec_urgent (applySettings (snapshot_1s\<lparr>bg := ''navy''\<rparr>) expired_1s)"
  unfolding spec_urgent_def by code_simp

lemma sync_points:
  "\<not> urgent (syncUrgentClass (st\<lparr>configuredTimerMode := Countdown, remainingMs := 300001\<rparr>))"
  "urgent (syncUrgentClass (st\<lparr>configuredTimerMode := Countdown, remainingMs := 300000\<rparr>))"
  "\<not> urgent (syncUrgentClass (st\<lparr>configuredTimerMode := Countdown, remainingMs := 0\<rparr>))"
  "\<not> urgent (syncUrgentClass (st\<lparr>configuredTimerMode := Off, remainingMs := r\<rparr>))"
  by (simp_all add: syncUrgentClass_def setUrgent_def URGENT_MS_def)

lemma start_inv: "urgent_inv st \<Longrightarrow> urgent_inv (startCountdown now st)"
  by (auto simp: engine_defs Let_def spec_urgent_def urgent_inv_def)

lemma tick_inv: "urgent_inv st \<Longrightarrow> urgent_inv (intervalCallback now st)"
  by (auto simp: engine_defs Let_def spec_urgent_def urgent_inv_def URGENT_MS_def split: option.splits)

lemma pause_inv: "urgent_inv (pauseCountdown st)"
  by (simp add: urgent_inv_def pause_urgent)

lemma reset_inv: "urgent_inv (resetCountdown st)"
  by (simp add: urgent_inv_def reset_urgent)

lemma setTimerMode_inv:
  "urgent_inv (st\<lparr>configuredTimerMode := m\<rparr>) \<or> m = Off \<Longrightarrow> urgent_inv (setTimerMode m (st\<lparr>configuredTimerMode := m\<rparr>))"
  by (auto simp: engine_defs Let_def spec_urgent_def urgent_inv_def)

lemma apply_inv: "urgent_inv st \<Longrightarrow> urgent_inv (applySettings s st)"
proof -
  assume inv: "urgent_inv st"
  show ?thesis
  proof (cases "timerMode s = Countdown \<and> (timerMode s \<noteq> configuredTimerMode st \<or> newDurationMs s \<noteq> configuredDurationMs st)")
    case True
    then have "\<exists>st'. applySettings s st = resetCountdown st'"
      by (auto simp: applySettings_def Let_def setTextContent_def setTimerMode_def setDisplay_def)
    then show ?thesis using reset_inv by auto
  next
    case False
    show ?thesis
    proof (cases "timerMode s")
      case Off
      then show ?thesis
        by (simp add: engine_defs Let_def spec_urgent_def urgent_inv_def)
    next
      case Countdown
      with False have same: "configuredTimerMode st = Countdown" "newDurationMs s = configuredDurationMs st"
        by auto
      with Countdown inv show ?thesis
        by (auto simp: engine_defs Let_def spec_urgent_def urgent_inv_def)
    qed
  qed
qed

lemma step_inv: "urgent_inv st \<Longrightarrow> urgent_inv (step e st)"
  by (cases e) (simp_all add: apply_inv start_inv pause_inv reset_inv tick_inv)

lemma run_inv: "urgent_inv st \<Longrightarrow> urgent_inv (run es st)"
  by (induction es arbitrary: st) (simp_all add: step_inv)

text \<open>
  Claim C4. Where the code writes the urgent flag (the interval callback, pause, reset
  and \<open>setTimerMode\<close> with mode off), the flag written equals
  \<open>mode = countdown \<and> 0 < remainingMs \<le> 300000\<close> on the resulting state. At 300001 the flag
  is false, at 300000 true, at 0 false, and in mode off false at any \<open>remainingMs\<close>. Every
  event of the display surface keeps: urgent implies mode countdown and
  \<open>0 < remainingMs \<le> 300000\<close>.
\<close>

theorem urgent_flag_invariant:
  "(timerInterval st \<noteq> None
      \<longrightarrow> urgent (intervalCallback now st) = spec_urgent (intervalCallback now st))
   \<and> urgent (pauseCountdown st) = spec_urgent (pauseCountdown st)
   \<and> urgent (resetCountdown st) = spec_urgent (resetCountdown st)
   \<and> urgent (setTimerMode Off st) = spec_urgent (setTimerMode Off st)
   \<and> \<not> urgent (syncUrgentClass (st\<lparr>configuredTimerMode := Countdown, remainingMs := 300001\<rparr>))
   \<and> urgent (syncUrgentClass (st\<lparr>configuredTimerMode := Countdown, remainingMs := 300000\<rparr>))
   \<and> \<not> urgent (syncUrgentClass (st\<lparr>configuredTimerMode := Countdown, remainingMs := 0\<rparr>))
   \<and> \<not> urgent (syncUrgentClass (st\<lparr>configuredTimerMode := Off, remainingMs := r\<rparr>))
   \<and> (urgent_inv st \<longrightarrow> urgent_inv (step e st))
   \<and> (engine_initial st \<longrightarrow> urgent_inv (run es st))"
proof -
  have ini: "engine_initial st \<longrightarrow> urgent_inv (run es st)"
  proof
    assume "engine_initial st"
    then have "urgent_inv st" by (simp add: urgent_inv_def engine_initial_def)
    then show "urgent_inv (run es st)" by (rule run_inv)
  qed
  show ?thesis
    using tick_urgent[of st now] pause_urgent[of st] reset_urgent[of st] setoff_urgent[of st]
      sync_points(1-3)[of st] sync_points(4)[of r st] step_inv[of st e] ini
    by blast
qed

theorem urgent_flag_invariant_witness:
  "timerInterval running_250s \<noteq> None \<and> urgent_inv running_250s
   \<and> urgent (intervalCallback 52000 running_250s)
   \<and> spec_urgent (intervalCallback 52000 running_250s)
   \<and> urgent_inv (step (IntervalFired 52000) running_250s)
   \<and> engine_initial initial_display
   \<and> urgent_inv (run [SettingsChanged snapshot_5min, TimerStart 1000] initial_display)"
proof -
  have live: "timerInterval running_250s \<noteq> None" by code_simp
  have u: "urgent (intervalCallback 52000 running_250s)" by code_simp
  have inv: "urgent_inv running_250s"
    unfolding urgent_inv_def spec_urgent_def by code_simp
  have ini: "engine_initial initial_display"
    by (simp add: engine_initial_def initial_display_def)
  note t = urgent_flag_invariant[of running_250s 52000 0 "IntervalFired 52000" "[]"]
  note t0 = urgent_flag_invariant[of initial_display 0 0 TimerPause
      "[SettingsChanged snapshot_5min, TimerStart 1000]"]
  from t live u have "spec_urgent (intervalCallback 52000 running_250s)" by simp
  moreover from t inv have "urgent_inv (step (IntervalFired 52000) running_250s)" by blast
  moreover from t0 ini
  have "urgent_inv (run [SettingsChanged snapshot_5min, TimerStart 1000] initial_display)" by blast
  ultimately show ?thesis using live u inv ini by simp
qed

subsection \<open>Configured duration\<close>

lemma applySettings_duration: "configuredDurationMs (applySettings s st) = newDurationMs s"
  by (cases "timerMode s") (simp_all add: engine_defs Let_def)

lemma neg_minutes: "timerMin s < 0 \<Longrightarrow> newDurationMs s = 0"
  by (simp add: newDurationMs_def max_def min_def)

text \<open>
  Claim C5, as amended. After a snapshot is applied the configured duration is
  \<open>(minutes * 60 + seconds') * 1000\<close> floored at 0, where \<open>seconds'\<close> is the seconds clamped
  to 0..59; the minutes are not clamped on their own. For minutes that are not negative
  this is the duration of the specification; negative minutes always configure 0
  milliseconds.
\<close>

theorem configured_duration_floor:
  "configuredDurationMs (applySettings s st)
     = max 0 ((timerMin s * 60 + min 59 (max 0 (timerSec s))) * 1000)
   \<and> 0 \<le> configuredDurationMs (applySettings s st)
   \<and> (0 \<le> timerMin s \<longrightarrow> configuredDurationMs (applySettings s st) = spec_durationMs s)
   \<and> (timerMin s < 0 \<longrightarrow> configuredDurationMs (applySettings s st) = 0)"
proof -
  let ?d = "configuredDurationMs (applySettings s st)"
  have a: "?d = max 0 ((timerMin s * 60 + min 59 (max 0 (timerSec s))) * 1000)"
    by (simp add: applySettings_duration newDurationMs_def)
  have b: "0 \<le> ?d"
    by (simp add: applySettings_duration newDurationMs_def)
  have c: "0 \<le> timerMin s \<longrightarrow> ?d = spec_durationMs s"
    by (simp add: applySettings_duration newDurationMs_def spec_durationMs_def max_def)
  have e: "timerMin s < 0 \<longrightarrow> ?d = 0"
    by (simp add: applySettings_duration neg_minutes)
  from a b c e show ?thesis by blast
qed

theorem configured_duration_floor_witness:
  "(0::int) \<le> timerMin snapshot_5min
   \<and> configuredDurationMs (applySettings snapshot_5min initial_display) = 300000
   \<and> spec_durationMs snapshot_5min = 300000
   \<and> timerMin snapshot_negative < 0
   \<and> configuredDurationMs (applySettings snapshot_negative running_250s) = 0
   \<and> timerMin (snapshot_5min\<lparr>timerMin := - 3, timerSec := 0\<rparr>) < 0
   \<and> configuredDurationMs (applySettings (snapshot_5min\<lparr>timerMin := - 3, timerSec := 0\<rparr>) initial_display) = 0"
proof -
  have m: "0 \<le> timerMin snapshot_5min" by (simp add: snapshot_5min_def)
  have v: "spec_durationMs snapshot_5min = 300000"
    by (simp add: snapshot_5min_def spec_durationMs_def)
  have n: "timerMin snapshot_negative < 0" by (simp add: snapshot_negative_def)
  have n3: "timerMin (snapshot_5min\<lparr>timerMin := - 3, timerSec := 0\<rparr>) < 0" by simp
  from configured_duration_floor[of snapshot_5min initial_display] m v
  have a: "configuredDurationMs (applySettings snapshot_5min initial_display) = 300000" by simp
  from configured_duration_floor[of snapshot_negative running_250s] n
  have b: "configuredDurationMs (applySettings snapshot_negative running_250s) = 0" by blast
  from configured_duration_floor[of "snapshot_5min\<lparr>timerMin := - 3, timerSec := 0\<rparr>" initial_display] n3
  have c: "configuredDurationMs (applySettings (snapshot_5min\<lparr>timerMin := - 3, timerSec := 0\<rparr>) initial_display) = 0"
    by blast
  from m v n n3 a b c show ?thesis by simp
qed

text \<open>
  Claim C5 as stated fails: with minutes \<open>-1\<close> and seconds 59 the code configures 0
  milliseconds, the specification's formula gives 59000, which is also what the code
  configures for minutes 0.
\<close>

theorem configured_duration_counterexample:
  "configuredDurationMs (applySettings snapshot_negative initial_display) = 0
   \<and> spec_durationMs snapshot_negative = 59000
   \<and> configuredDurationMs (applySettings (snapshot_negative\<lparr>timerMin := 0\<rparr>) initial_display)
       = 59000"
  by (simp add: applySettings_duration newDurationMs_def spec_durationMs_def
      snapshot_negative_def snapshot_5min_def)

subsection \<open>Commands before any snapshot\<close>

lemma newDurationMs_nonneg: "0 \<le> newDurationMs s"
  by (simp add: newDurationMs_def)

lemma apply_nonneg: "nonneg st \<Longrightarrow> nonneg (applySettings s st)"
  using newDurationMs_nonneg[of s]
  by (cases "timerMode s") (auto simp: engine_defs Let_def nonneg_def)

lemma cmd_nonneg:
  "nonneg st \<Longrightarrow> nonneg (startCountdown now st) \<and> nonneg (pauseCountdown st)
     \<and> nonneg (resetCountdown st) \<and> nonneg (intervalCallback now st)"
  by (auto simp: setUrgent_def syncUrgentClass_def stopInterval_def setDisplay_def
        startCountdown_def intervalCallback_def pauseCountdown_def resetCountdown_def
        Let_def nonneg_def split: option.splits)

lemma step_nonneg: "nonneg st \<Longrightarrow> nonneg (step e st)"
  by (cases e) (simp_all add: apply_nonneg cmd_nonneg)

lemma run_nonneg: "nonneg st \<Longrightarrow> nonneg (run es st)"
  by (induction es arbitrary: st) (simp_all add: step_nonneg)

lemma initial_cmds:
  "engine_initial st \<Longrightarrow> startCountdown now st = st \<and> engine_initial (pauseCountdown st) \<and> engine_initial (resetCountdown st)"
  by (simp add: engine_defs Let_def engine_initial_def)

lemma start_inert_any:
  "configuredTimerMode st = Countdown \<Longrightarrow> remainingMs st \<le> 0 \<Longrightarrow> configuredDurationMs st \<le> 0 \<Longrightarrow>
     startCountdown now st = st\<lparr>remainingMs := configuredDurationMs st\<rparr>"
  by (simp add: engine_defs Let_def)

lemma start_inert:
  "nonneg st \<Longrightarrow> configuredTimerMode st = Countdown \<Longrightarrow> remainingMs st \<le> 0 \<Longrightarrow> configuredDurationMs st \<le> 0 \<Longrightarrow>
     startCountdown now st = st"
  by (simp add: engine_defs Let_def nonneg_def)

text \<open>
  After the start-up on an empty store the mode is off and the configured duration is the
  default five minutes; reset then loads that duration into \<open>remainingMs\<close>, with no interval
  and no urgent flag.
\<close>

lemma reset_after_boot:
  "\<exists>st. bootDisplay Map.empty initial_display = Some st
     \<and> configuredTimerMode st = Off \<and> configuredDurationMs st = 300000 \<and> remainingMs st = 0
     \<and> remainingMs (resetCountdown st) = 300000 \<and> \<not> urgent (resetCountdown st)
     \<and> timerInterval (resetCountdown st) = None"
proof -
  have r: "readStoredSettings Map.empty = Some (snapshot_5min\<lparr>timerMode := Off\<rparr>)"
    by (simp add: readStoredSettings_def getOr_def mode_of_def Number_of_def is_digit_def
        decimal_value_def digit_value_def snapshot_5min_def)
  let ?st = "applySettings (snapshot_5min\<lparr>timerMode := Off\<rparr>) initial_display"
  have b: "bootDisplay Map.empty initial_display = Some ?st"
    by (simp add: bootDisplay_def r)
  have "configuredTimerMode ?st = Off \<and> configuredDurationMs ?st = 300000 \<and> remainingMs ?st = 0
     \<and> remainingMs (resetCountdown ?st) = 300000 \<and> \<not> urgent (resetCountdown ?st)
     \<and> timerInterval (resetCountdown ?st) = None"
    by code_simp
  with b show ?thesis by blast
qed

text \<open>
  Claim C9. In the engine's initial state start changes nothing at all, and pause and
  reset leave mode, configured duration, \<open>remainingMs\<close>, the absent interval and the
  urgent flag as they are. In every state reached from the initial one in which the mode
  is countdown and both \<open>remainingMs\<close> and the configured duration are at most 0, start
  changes nothing either; in any such state whatsoever it starts no interval.
\<close>

theorem commands_before_snapshot:
  "(engine_initial st
      \<longrightarrow> startCountdown now st = st \<and> engine_initial (pauseCountdown st)
          \<and> engine_initial (resetCountdown st))
   \<and> (engine_initial st \<and> configuredTimerMode (run es st) = Countdown
      \<and> remainingMs (run es st) \<le> 0 \<and> configuredDurationMs (run es st) \<le> 0
      \<longrightarrow> startCountdown now (run es st) = run es st)
   \<and> (configuredTimerMode st = Countdown \<and> remainingMs st \<le> 0 \<and> configuredDurationMs st \<le> 0
      \<longrightarrow> timerInterval (startCountdown now st) = timerInterval st
          \<and> configuredTimerMode (startCountdown now st) = Countdown
          \<and> urgent (startCountdown now st) = urgent st
          \<and> remainingMs (startCountdown now st) \<le> 0)"
proof -
  have reach: "engine_initial st \<and> configuredTimerMode (run es st) = Countdown
      \<and> remainingMs (run es st) \<le> 0 \<and> configuredDurationMs (run es st) \<le> 0
      \<longrightarrow> startCountdown now (run es st) = run es st"
  proof
    assume h: "engine_initial st \<and> configuredTimerMode (run es st) = Countdown
      \<and> remainingMs (run es st) \<le> 0 \<and> configuredDurationMs (run es st) \<le> 0"
    then have "nonneg st" by (simp add: engine_initial_def nonneg_def)
    then have "nonneg (run es st)" by (rule run_nonneg)
    with h show "startCountdown now (run es st) = run es st" by (simp add: start_inert)
  qed
  have any: "configuredTimerMode st = Countdown \<and> remainingMs st \<le> 0 \<and> configuredDurationMs st \<le> 0
      \<longrightarrow> timerInterval (startCountdown now st) = timerInterval st
          \<and> configuredTimerMode (startCountdown now st) = Countdown
          \<and> urgent (startCountdown now st) = urgent st
          \<and> remainingMs (startCountdown now st) \<le> 0"
    by (simp add: start_inert_any)
  show ?thesis using initial_cmds[of st now] reach any by blast
qed

theorem commands_before_snapshot_witness:
  "engine_initial initial_display
   \<and> startCountdown 7 initial_display = initial_display
   \<and> engine_initial (pauseCountdown initial_display)
   \<and> engine_initial (resetCountdown initial_display)
   \<and> configuredTimerMode (run [SettingsChanged snapshot_inert] initial_display) = Countdown
   \<and> remainingMs (run [SettingsChanged snapshot_inert] initial_display) \<le> 0
   \<and> configuredDurationMs (run [SettingsChanged snapshot_inert] initial_display) \<le> 0
   \<and> startCountdown 7 (run [SettingsChanged snapshot_inert] initial_display)
       = run [SettingsChanged snapshot_inert] initial_display"
proof -
  let ?r = "run [SettingsChanged snapshot_inert] initial_display"
  have ini: "engine_initial initial_display"
    by (simp add: engine_initial_def initial_display_def)
  have r: "configuredTimerMode ?r = Countdown" "remainingMs ?r \<le> 0" "configuredDurationMs ?r \<le> 0"
    by code_simp+
  note t = commands_before_snapshot[of initial_display 7 "[SettingsChanged snapshot_inert]"]
  from t ini have a: "startCountdown 7 initial_display = initial_display
     \<and> engine_initial (pauseCountdown initial_display)
     \<and> engine_initial (resetCountdown initial_display)"
    by blast
  from t ini r have b: "startCountdown 7 ?r = ?r" by blast
  from ini r a b show ?thesis by simp
qed

section \<open>Publisher\<close>

subsection \<open>How a call of \<open>pushNow\<close> ends\<close>

lemma JSON_stringify_nonempty: "JSON_stringify s \<noteq> []"
  by (simp add: JSON_stringify_def)

lemma snapshot_idem:
  "snapshotSettings (snd (snapshotSettings st)) = (fst (snapshotSettings st), snd (snapshotSettings st))"
  by (simp add: snapshotSettings_def Let_def clampInt_def inputNumber_def)

lemma snapshot_fields:
  "lastSent (snd (snapshotSettings st)) = lastSent st"
  "localStorage (snd (snapshotSettings st)) = localStorage st"
  "emitted (snd (snapshotSettings st)) = emitted st"
  "consoleErrors (snd (snapshotSettings st)) = consoleErrors st"
  "pendingTimer (snd (snapshotSettings st)) = pendingTimer st"
  by (simp_all add: snapshotSettings_def Let_def)

lemma snapshot_ignores:
  "fst (snapshotSettings (st\<lparr>lastSent := a\<rparr>)) = fst (snapshotSettings st)"
  "fst (snapshotSettings (st\<lparr>localStorage := b\<rparr>)) = fst (snapshotSettings st)"
  "fst (snapshotSettings (st\<lparr>emitted := c\<rparr>)) = fst (snapshotSettings st)"
  "fst (snapshotSettings (st\<lparr>consoleErrors := d\<rparr>)) = fst (snapshotSettings st)"
  "fst (snapshotSettings (st\<lparr>pendingTimer := e\<rparr>)) = fst (snapshotSettings st)"
  by (simp_all add: snapshotSettings_def Let_def)

lemma snapshot_fst_idem:
  "fst (snapshotSettings (snd (snapshotSettings st))) = fst (snapshotSettings st)"
  by (simp add: snapshot_idem)

text \<open>The three ways a call of pushNow ends.\<close>

lemma pushNow_suppressed:
  assumes "JSON_stringify (fst (snapshotSettings st)) = lastSent st"
  shows "pushNow env st = (Completed, snd (snapshotSettings st))"
  using assms by (simp add: pushNow_def Let_def split_beta snapshot_fields)

lemma pushNow_threw:
  assumes "JSON_stringify (fst (snapshotSettings st)) \<noteq> lastSent st"
    and "writeStoredSettings (storeAccepts env) (fst (snapshotSettings st)) (localStorage st) = (Threw, store')"
  shows "pushNow env st =
     (Threw, (snd (snapshotSettings st))\<lparr>lastSent := JSON_stringify (fst (snapshotSettings st)),
                                         localStorage := store'\<rparr>)"
  using assms by (simp add: pushNow_def Let_def split_beta snapshot_fields)

lemma pushNow_completed:
  assumes "JSON_stringify (fst (snapshotSettings st)) \<noteq> lastSent st"
    and "writeStoredSettings (storeAccepts env) (fst (snapshotSettings st)) (localStorage st) = (Completed, store')"
  shows "pushNow env st =
     (Completed, emitSettings env (fst (snapshotSettings st))
        ((snd (snapshotSettings st))\<lparr>lastSent := JSON_stringify (fst (snapshotSettings st)),
                                     localStorage := store'\<rparr>))"
  using assms by (simp add: pushNow_def Let_def split_beta snapshot_fields)

lemma emitSettings_fields:
  "emitted (emitSettings env next st) = emitted st @ [next]"
  "lastSent (emitSettings env next st) = lastSent st"
  "localStorage (emitSettings env next st) = localStorage st"
  "fst (snapshotSettings (emitSettings env next st)) = fst (snapshotSettings st)"
  by (simp_all add: emitSettings_def Let_def snapshotSettings_def)

lemma write_cases:
  obtains store' where "writeStoredSettings acc s store = (Threw, store')"
  | store' where "writeStoredSettings acc s store = (Completed, store')"
  by (metis outcome.exhaust surj_pair)

lemma pushNow_lastSent:
  "lastSent (snd (pushNow env st)) = JSON_stringify (fst (snapshotSettings st))"
proof (cases "JSON_stringify (fst (snapshotSettings st)) = lastSent st")
  case True
  then show ?thesis by (simp add: pushNow_suppressed snapshot_fields)
next
  case False
  show ?thesis
  proof (cases rule: write_cases[of "storeAccepts env" "fst (snapshotSettings st)" "localStorage st"])
    case (1 store')
    from pushNow_threw[OF False 1] show ?thesis by simp
  next
    case (2 store')
    from pushNow_completed[OF False 2] show ?thesis by (simp add: emitSettings_fields)
  qed
qed

lemma pushNow_snapshot:
  "fst (snapshotSettings (snd (pushNow env st))) = fst (snapshotSettings st)"
proof (cases "JSON_stringify (fst (snapshotSettings st)) = lastSent st")
  case True
  then show ?thesis by (simp add: pushNow_suppressed snapshot_fst_idem)
next
  case False
  show ?thesis
  proof (cases rule: write_cases[of "storeAccepts env" "fst (snapshotSettings st)" "localStorage st"])
    case (1 store')
    from pushNow_threw[OF False 1] show ?thesis by (simp add: snapshot_ignores snapshot_fst_idem)
  next
    case (2 store')
    from pushNow_completed[OF False 2] show ?thesis
      by (simp add: emitSettings_fields snapshot_ignores snapshot_fst_idem)
  qed
qed

lemma pushNow_settled: "settled (snd (pushNow env st))"
  by (simp add: settled_def pushNow_lastSent pushNow_snapshot)

lemma setItems_accepting:
  "\<forall>k v. acc k v \<Longrightarrow> fst (setItems acc kvs store) = Completed"
  by (induction kvs arbitrary: store) auto

lemma setItems_written:
  "\<forall>k v. acc k v \<Longrightarrow> distinct (map fst kvs) \<Longrightarrow> (k, v) \<in> set kvs \<Longrightarrow> snd (setItems acc kvs store) k = Some v"
proof (induction kvs arbitrary: store)
  case Nil
  then show ?case by simp
next
  case (Cons a kvs)
  obtain k' v' where a: "a = (k', v')" by (cases a)
  have keep: "k \<notin> fst ` set kvs \<Longrightarrow> snd (setItems acc kvs s) k = s k" for s
    using Cons.prems(1) by (induction kvs arbitrary: s) auto
  have unfold: "setItems acc (a # kvs) store = setItems acc kvs (store(k' \<mapsto> v'))"
    using Cons.prems(1) a by simp
  show ?case
  proof (cases "(k, v) = a")
    case True
    then have "k \<notin> fst ` set kvs" and kv: "k = k'" "v = v'" using Cons.prems(2) a by auto
    from keep[OF this(1), of "store(k' \<mapsto> v')"] show ?thesis
      unfolding unfold kv by simp
  next
    case False
    then have "(k, v) \<in> set kvs" using Cons.prems(3) by simp
    moreover have "distinct (map fst kvs)" using Cons.prems(2) by simp
    ultimately have "snd (setItems acc kvs (store(k' \<mapsto> v'))) k = Some v"
      using Cons.IH Cons.prems(1) by blast
    then show ?thesis unfolding unfold .
  qed
qed

lemma storedEntries_distinct: "distinct (map fst (storedEntries s))"
  by (simp add: storedEntries_def)

lemma pushNow_suppressed_fields:
  assumes "JSON_stringify (fst (snapshotSettings st)) = lastSent st"
  shows "fst (pushNow env st) = Completed \<and> localStorage (snd (pushNow env st)) = localStorage st
     \<and> emitted (snd (pushNow env st)) = emitted st \<and> consoleErrors (snd (pushNow env st)) = consoleErrors st
     \<and> lastSent (snd (pushNow env st)) = lastSent st"
  using assms by (simp add: pushNow_suppressed snapshot_fields)

lemma writeStoredSettings_accepting:
  assumes "\<forall>k v. acc k v"
  shows "fst (writeStoredSettings acc s store) = Completed"
    and "\<forall>(k, v) \<in> set (storedEntries s). snd (writeStoredSettings acc s store) k = Some v"
  using assms setItems_accepting[of acc "storedEntries s" store]
    setItems_written[of acc "storedEntries s" _ _ store] storedEntries_distinct[of s]
  by (auto simp: writeStoredSettings_def)

lemma pushNow_accepted_ok:
  assumes "JSON_stringify (fst (snapshotSettings st)) \<noteq> lastSent st" and "\<forall>k v. storeAccepts env k v"
  shows "fst (pushNow env st) = Completed
     \<and> emitted (snd (pushNow env st)) = emitted st @ [fst (snapshotSettings st)]
     \<and> (\<forall>(k, v) \<in> set (storedEntries (fst (snapshotSettings st))). localStorage (snd (pushNow env st)) k = Some v)"
proof -
  let ?next = "fst (snapshotSettings st)"
  let ?w = "writeStoredSettings (storeAccepts env) ?next (localStorage st)"
  have w: "?w = (Completed, snd ?w)"
    using writeStoredSettings_accepting(1)[OF assms(2), of ?next "localStorage st"]
    by (metis prod.collapse)
  from pushNow_completed[OF assms(1) w] writeStoredSettings_accepting(2)[OF assms(2), of ?next "localStorage st"]
  show ?thesis
    by (simp add: emitSettings_fields snapshot_fields)
qed

lemma pushNow_twice:
  "emitted (snd (pushNow env2 (snd (pushNow env1 st)))) = emitted (snd (pushNow env1 st))
   \<and> localStorage (snd (pushNow env2 (snd (pushNow env1 st)))) = localStorage (snd (pushNow env1 st))"
proof -
  have "settled (snd (pushNow env1 st))" by (rule pushNow_settled)
  then have "JSON_stringify (fst (snapshotSettings (snd (pushNow env1 st)))) = lastSent (snd (pushNow env1 st))"
    by (simp add: settled_def)
  from pushNow_suppressed_fields[OF this] show ?thesis by simp
qed

lemma pushNow_gate_inv:
  assumes "gate_inv st" "\<forall>k v. storeAccepts env k v"
  shows "gate_inv (snd (pushNow env st))"
proof (cases "JSON_stringify (fst (snapshotSettings st)) = lastSent st")
  case True
  from pushNow_suppressed_fields[OF True, of env] assms(1) show ?thesis
    by (simp add: gate_inv_def)
next
  case False
  from pushNow_accepted_ok[OF False assms(2)] pushNow_lastSent[of env st] show ?thesis
    by (simp add: gate_inv_def)
qed

lemma apply_edit_fields:
  "lastSent (apply_edit e st) = lastSent st" "emitted (apply_edit e st) = emitted st"
  "localStorage (apply_edit e st) = localStorage st"
  by (cases e; simp)+

lemma step_gate_inv:
  assumes "gate_inv st" "store_ok e"
  shows "gate_inv (control_step e st)"
proof (cases e)
  case (UserEdit x)
  with assms(1) show ?thesis by (simp add: gate_inv_def apply_edit_fields)
next
  case (QueuePush d)
  with assms(1) show ?thesis by (simp add: gate_inv_def queuePush_def)
next
  case (TimeoutFired env)
  show ?thesis
  proof (cases "pendingTimer st")
    case None
    with TimeoutFired assms(1) show ?thesis by (simp add: timeoutFired_def)
  next
    case (Some d)
    have "gate_inv (st\<lparr>pendingTimer := None\<rparr>)" using assms(1) by (simp add: gate_inv_def)
    moreover have "\<forall>k v. storeAccepts env k v" using assms(2) TimeoutFired by simp
    ultimately have "gate_inv (snd (pushNow env (st\<lparr>pendingTimer := None\<rparr>)))" by (rule pushNow_gate_inv)
    with TimeoutFired Some show ?thesis by (simp add: timeoutFired_def)
  qed
next
  case (PushNow env)
  with assms pushNow_gate_inv[of st env] show ?thesis by simp
qed

lemma run_gate_inv:
  "gate_inv st \<Longrightarrow> list_all store_ok es \<Longrightarrow> gate_inv (control_run es st)"
  by (induction es arbitrary: st) (simp_all add: step_gate_inv)

lemma pushNow_threw_fields:
  assumes "fst (pushNow env st) = Threw"
  shows "emitted (snd (pushNow env st)) = emitted st \<and> consoleErrors (snd (pushNow env st)) = consoleErrors st"
proof (cases "JSON_stringify (fst (snapshotSettings st)) = lastSent st")
  case True
  with assms show ?thesis by (simp add: pushNow_suppressed)
next
  case False
  show ?thesis
  proof (cases rule: write_cases[of "storeAccepts env" "fst (snapshotSettings st)" "localStorage st"])
    case (1 store')
    from pushNow_threw[OF False 1] show ?thesis by (simp add: snapshot_fields)
  next
    case (2 store')
    from pushNow_completed[OF False 2] assms show ?thesis by simp
  qed
qed

lemma pushNow_write_threw:
  assumes "JSON_stringify (fst (snapshotSettings st)) \<noteq> lastSent st"
    and "fst (writeStoredSettings (storeAccepts env) (fst (snapshotSettings st)) (localStorage st)) = Threw"
  shows "fst (pushNow env st) = Threw \<and> emitted (snd (pushNow env st)) = emitted st
     \<and> consoleErrors (snd (pushNow env st)) = consoleErrors st
     \<and> lastSent (snd (pushNow env st)) = JSON_stringify (fst (snapshotSettings st))
     \<and> fst (snapshotSettings (snd (pushNow env st))) = fst (snapshotSettings st)"
proof -
  let ?w = "writeStoredSettings (storeAccepts env) (fst (snapshotSettings st)) (localStorage st)"
  have w: "?w = (Threw, snd ?w)" using assms(2) by (metis prod.collapse)
  from pushNow_threw[OF assms(1) w] have t: "fst (pushNow env st) = Threw" by simp
  from pushNow_threw_fields[OF t] t pushNow_lastSent[of env st] pushNow_snapshot[of env st]
  show ?thesis by simp
qed

lemma pushNow_write_completed:
  assumes "JSON_stringify (fst (snapshotSettings st)) \<noteq> lastSent st"
    and "fst (writeStoredSettings (storeAccepts env) (fst (snapshotSettings st)) (localStorage st)) = Completed"
  shows "fst (pushNow env st) = Completed
     \<and> emitted (snd (pushNow env st)) = emitted st @ [fst (snapshotSettings st)]
     \<and> localStorage (snd (pushNow env st))
         = snd (writeStoredSettings (storeAccepts env) (fst (snapshotSettings st)) (localStorage st))
     \<and> consoleErrors (snd (pushNow env st)) = consoleErrors st + (if busAccepts env then 0 else 1)"
proof -
  let ?w = "writeStoredSettings (storeAccepts env) (fst (snapshotSettings st)) (localStorage st)"
  have w: "?w = (Completed, snd ?w)" using assms(2) by (metis prod.collapse)
  from pushNow_completed[OF assms(1) w] show ?thesis
    by (simp add: emitSettings_def Let_def snapshot_fields)
qed

subsection \<open>Runs without an edit\<close>

text \<open>Without an edit a publisher whose form serialises to \<open>lastSent\<close> writes and emits nothing.\<close>

lemma settled_pushNow:
  assumes "settled st"
  shows "settled (snd (pushNow env st)) \<and> same_effects (snd (pushNow env st)) st \<and> fst (pushNow env st) = Completed"
  using assms pushNow_suppressed_fields[of st env] pushNow_settled[of env st]
  by (simp add: settled_def same_effects_def)

lemma settled_step:
  assumes "settled st" "\<not> is_edit e"
  shows "settled (control_step e st) \<and> same_effects (control_step e st) st"
proof (cases e)
  case (UserEdit x)
  with assms(2) show ?thesis by simp
next
  case (QueuePush d)
  with assms(1) show ?thesis
    by (simp add: settled_def same_effects_def queuePush_def snapshot_ignores)
next
  case (TimeoutFired env)
  show ?thesis
  proof (cases "pendingTimer st")
    case None
    with TimeoutFired assms(1) show ?thesis by (simp add: timeoutFired_def same_effects_def)
  next
    case (Some d)
    have s: "settled (st\<lparr>pendingTimer := None\<rparr>)"
      using assms(1) by (simp add: settled_def snapshot_ignores)
    from settled_pushNow[OF s, of env] TimeoutFired Some show ?thesis
      by (simp add: timeoutFired_def same_effects_def)
  qed
next
  case (PushNow env)
  with settled_pushNow[OF assms(1), of env] show ?thesis by simp
qed

lemma settled_run:
  "settled st \<Longrightarrow> \<not> list_ex is_edit es \<Longrightarrow> same_effects (control_run es st) st"
proof (induction es arbitrary: st)
  case Nil
  then show ?case by (simp add: same_effects_def)
next
  case (Cons e es)
  then have e: "\<not> is_edit e" and es: "\<not> list_ex is_edit es" by simp_all
  from settled_step[OF Cons.prems(1) e]
  have s: "settled (control_step e st)" and same: "same_effects (control_step e st) st" by simp_all
  from Cons.IH[OF s es] same show ?case by (simp add: same_effects_def)
qed

subsection \<open>Idempotent publish\<close>

text \<open>What \<open>writeStoredSettings\<close> stores reads back as the snapshot.\<close>

lemma mode_of_mode_string: "mode_of (mode_string m) = Some m"
  by (cases m) (simp_all add: mode_of_def mode_string_def)

lemma digits_of_nonempty: "digits_of n \<noteq> []"
  by (subst digits_of.simps) simp

lemma is_digit_not_minus: "is_digit c \<Longrightarrow> c \<noteq> CHR ''-''"
  by (auto simp: is_digit_def)

lemma Number_of_digits: "Number_of (digits_of n) = Some (int n)"
proof -
  obtain c cs where s: "digits_of n = c # cs"
    using digits_of_nonempty[of n] by (cases "digits_of n") auto
  have all: "list_all is_digit (c # cs)" using is_digit_digits_of[of n] s by simp
  then have "c \<noteq> CHR ''-''" by (simp add: is_digit_not_minus)
  with all have "Number_of (c # cs) = Some (int (decimal_value (c # cs)))"
    by (simp add: Number_of_def)
  then show ?thesis using s decimal_value_digits_of[of n] by simp
qed

lemma Number_of_String_of: "Number_of (String_of n) = Some n"
proof (cases "n < 0")
  case True
  have "Number_of (CHR ''-'' # digits_of (nat (- n))) = Some (- int (decimal_value (digits_of (nat (- n)))))"
    using digits_of_nonempty[of "nat (- n)"] is_digit_digits_of[of "nat (- n)"]
    by (simp add: Number_of_def)
  with True show ?thesis by (simp add: String_of_def decimal_value_digits_of)
next
  case False
  then show ?thesis by (simp add: String_of_def Number_of_digits)
qed

lemma read_back:
  assumes "\<forall>(k, v) \<in> set (storedEntries s). store k = Some v"
  shows "readStoredSettings_settings store = Some s"
proof -
  from assms have e: "store ''bg'' = Some (bg s)" "store ''text'' = Some (textColor s)"
    "store ''titleText'' = Some (titleText s)" "store ''subtitleText'' = Some (subtitleText s)"
    "store ''subtitleColor'' = Some (subtitleColor s)"
    "store ''timerMode'' = Some (mode_string (timerMode s))"
    "store ''timerMin'' = Some (String_of (timerMin s))"
    "store ''timerSec'' = Some (String_of (timerSec s))"
    by (simp_all add: storedEntries_def)
  show ?thesis
    by (cases s) (simp add: readStoredSettings_settings_def getOr_def e mode_of_mode_string
        Number_of_String_of)
qed

lemma entries_keys:
  assumes "\<forall>(k, v) \<in> set (storedEntries s). store k = Some v"
  shows "store ''bg'' = Some (bg s) \<and> store ''text'' = Some (textColor s)
    \<and> store ''titleText'' = Some (titleText s) \<and> store ''subtitleText'' = Some (subtitleText s)
    \<and> store ''subtitleColor'' = Some (subtitleColor s)
    \<and> store ''timerMode'' = Some (mode_string (timerMode s))
    \<and> store ''timerMin'' = Some (String_of (timerMin s))
    \<and> store ''timerSec'' = Some (String_of (timerSec s))"
  using assms by (simp add: storedEntries_def)

text \<open>
  Claim C2, as amended. A publish attempt whose serialised snapshot equals \<open>lastSent\<close>
  returns without a store write and without an emission; in every run from start-up in
  which the store takes every write, \<open>lastSent\<close> is the serialisation of the last emitted
  snapshot. The first attempt after start-up, where \<open>lastSent\<close> is the empty string, is
  always accepted, whatever the snapshot, the defaults included. An accepted attempt on a
  store that takes the write emits the snapshot and persists it: every key holds the
  value of its form control, and reading the store back gives the snapshot. A second
  attempt right after any attempt emits nothing more, so two attempts in a row from
  start-up on such a store emit exactly once.
\<close>

theorem idempotent_publish:
  "(JSON_stringify (fst (snapshotSettings st)) = lastSent st
      \<longrightarrow> fst (pushNow env st) = Completed \<and> localStorage (snd (pushNow env st)) = localStorage st
          \<and> emitted (snd (pushNow env st)) = emitted st)
   \<and> (lastSent st = [] \<longrightarrow> JSON_stringify (fst (snapshotSettings st)) \<noteq> lastSent st)
   \<and> (JSON_stringify (fst (snapshotSettings st)) \<noteq> lastSent st \<and> (\<forall>k v. storeAccepts env k v)
      \<longrightarrow> fst (pushNow env st) = Completed
          \<and> emitted (snd (pushNow env st)) = emitted st @ [fst (snapshotSettings st)]
          \<and> readStoredSettings_settings (localStorage (snd (pushNow env st)))
              = Some (fst (snapshotSettings st))
          \<and> localStorage (snd (pushNow env st)) ''bg'' = Some (bgSelect st)
          \<and> localStorage (snd (pushNow env st)) ''text'' = Some (textSelect st)
          \<and> localStorage (snd (pushNow env st)) ''titleText'' = Some (titleInput st)
          \<and> localStorage (snd (pushNow env st)) ''subtitleText'' = Some (subtitleInput st)
          \<and> localStorage (snd (pushNow env st)) ''subtitleColor'' = Some (subtitleColorSelect st)
          \<and> localStorage (snd (pushNow env st)) ''timerMode''
              = Some (if timerModeSelect st = ''countdown'' then ''countdown'' else ''off'')
          \<and> localStorage (snd (pushNow env st)) ''timerMin''
              = Some (String_of (timerMin (fst (snapshotSettings st))))
          \<and> localStorage (snd (pushNow env st)) ''timerSec''
              = Some (String_of (timerSec (fst (snapshotSettings st)))))
   \<and> emitted (snd (pushNow env2 (snd (pushNow env st)))) = emitted (snd (pushNow env st))
   \<and> (startup st \<and> (\<forall>k v. storeAccepts env k v)
      \<longrightarrow> emitted (control_run [PushNow env, PushNow env2] st) = [fst (snapshotSettings st)])
   \<and> (startup st \<and> list_all store_ok es \<longrightarrow> gate_inv (control_run es st))"
proof -
  let ?next = "fst (snapshotSettings st)"
  have first: "lastSent st = [] \<longrightarrow> JSON_stringify ?next \<noteq> lastSent st"
    using JSON_stringify_nonempty[of ?next] by simp
  have acc: "JSON_stringify ?next \<noteq> lastSent st \<and> (\<forall>k v. storeAccepts env k v)
      \<longrightarrow> fst (pushNow env st) = Completed
          \<and> emitted (snd (pushNow env st)) = emitted st @ [?next]
          \<and> readStoredSettings_settings (localStorage (snd (pushNow env st))) = Some ?next
          \<and> localStorage (snd (pushNow env st)) ''bg'' = Some (bgSelect st)
          \<and> localStorage (snd (pushNow env st)) ''text'' = Some (textSelect st)
          \<and> localStorage (snd (pushNow env st)) ''titleText'' = Some (titleInput st)
          \<and> localStorage (snd (pushNow env st)) ''subtitleText'' = Some (subtitleInput st)
          \<and> localStorage (snd (pushNow env st)) ''subtitleColor'' = Some (subtitleColorSelect st)
          \<and> localStorage (snd (pushNow env st)) ''timerMode''
              = Some (if timerModeSelect st = ''countdown'' then ''countdown'' else ''off'')
          \<and> localStorage (snd (pushNow env st)) ''timerMin'' = Some (String_of (timerMin ?next))
          \<and> localStorage (snd (pushNow env st)) ''timerSec'' = Some (String_of (timerSec ?next))"
  proof
    assume h: "JSON_stringify ?next \<noteq> lastSent st \<and> (\<forall>k v. storeAccepts env k v)"
    then have ne: "JSON_stringify ?next \<noteq> lastSent st" and ok: "\<forall>k v. storeAccepts env k v"
      by simp_all
    from pushNow_accepted_ok[OF ne ok]
    have c: "fst (pushNow env st) = Completed"
      and e: "emitted (snd (pushNow env st)) = emitted st @ [?next]"
      and w: "\<forall>(k, v) \<in> set (storedEntries ?next). localStorage (snd (pushNow env st)) k = Some v"
      by simp_all
    have f: "bg ?next = bgSelect st" "textColor ?next = textSelect st"
      "titleText ?next = titleInput st" "subtitleText ?next = subtitleInput st"
      "subtitleColor ?next = subtitleColorSelect st"
      "mode_string (timerMode ?next) = (if timerModeSelect st = ''countdown'' then ''countdown'' else ''off'')"
      by (simp_all add: snapshotSettings_def Let_def mode_string_def)
    from c e read_back[OF w] entries_keys[OF w] f
    show "fst (pushNow env st) = Completed
          \<and> emitted (snd (pushNow env st)) = emitted st @ [?next]
          \<and> readStoredSettings_settings (localStorage (snd (pushNow env st))) = Some ?next
          \<and> localStorage (snd (pushNow env st)) ''bg'' = Some (bgSelect st)
          \<and> localStorage (snd (pushNow env st)) ''text'' = Some (textSelect st)
          \<and> localStorage (snd (pushNow env st)) ''titleText'' = Some (titleInput st)
          \<and> localStorage (snd (pushNow env st)) ''subtitleText'' = Some (subtitleInput st)
          \<and> localStorage (snd (pushNow env st)) ''subtitleColor'' = Some (subtitleColorSelect st)
          \<and> localStorage (snd (pushNow env st)) ''timerMode''
              = Some (if timerModeSelect st = ''countdown'' then ''countdown'' else ''off'')
          \<and> localStorage (snd (pushNow env st)) ''timerMin'' = Some (String_of (timerMin ?next))
          \<and> localStorage (snd (pushNow env st)) ''timerSec'' = Some (String_of (timerSec ?next))"
      by simp
  qed
  have twice: "emitted (snd (pushNow env2 (snd (pushNow env st)))) = emitted (snd (pushNow env st))"
    using pushNow_twice[of env2 env st] by simp
  have once: "startup st \<and> (\<forall>k v. storeAccepts env k v)
      \<longrightarrow> emitted (control_run [PushNow env, PushNow env2] st) = [?next]"
  proof
    assume h: "startup st \<and> (\<forall>k v. storeAccepts env k v)"
    then have "lastSent st = []" and e: "emitted st = []" and ok: "\<forall>k v. storeAccepts env k v"
      by (simp_all add: startup_def)
    with first acc have "emitted (snd (pushNow env st)) = [?next]" by simp
    with twice show "emitted (control_run [PushNow env, PushNow env2] st) = [?next]"
      by simp
  qed
  have gate: "startup st \<and> list_all store_ok es \<longrightarrow> gate_inv (control_run es st)"
  proof
    assume h: "startup st \<and> list_all store_ok es"
    then have "gate_inv st" by (simp add: startup_def gate_inv_def)
    with h show "gate_inv (control_run es st)" by (simp add: run_gate_inv)
  qed
  show ?thesis
    using pushNow_suppressed_fields[of st env] first acc twice once gate by blast
qed

theorem idempotent_publish_witness:
  "startup form_edited \<and> lastSent form_edited = []
   \<and> JSON_stringify (fst (snapshotSettings form_edited)) \<noteq> lastSent form_edited
   \<and> emitted (control_run [PushNow allOk, PushNow allOk] form_edited)
       = [fst (snapshotSettings form_edited)]
   \<and> readStoredSettings_settings (localStorage (snd (pushNow allOk form_edited)))
       = Some \<lparr>bg = ''navy'', titleText = ''QUIET'', textColor = ''white'', subtitleText = [],
               subtitleColor = ''turquoise'', timerMode = Countdown, timerMin = 12, timerSec = 59\<rparr>
   \<and> localStorage (snd (pushNow allOk form_edited)) ''timerSec'' = Some ''59''
   \<and> localStorage (snd (pushNow allOk form_edited)) ''timerMode'' = Some ''countdown''
   \<and> JSON_stringify (fst (snapshotSettings (snd (pushNow allOk form_edited))))
       = lastSent (snd (pushNow allOk form_edited))
   \<and> emitted (snd (pushNow storeFull (snd (pushNow allOk form_edited))))
       = emitted (snd (pushNow allOk form_edited))
   \<and> list_all store_ok typing_title
   \<and> gate_inv (control_run typing_title form_defaults)
   \<and> map titleText (emitted (control_run typing_title form_defaults)) = [''ATTENTION'', ''QUIET PLEASE'']"
proof -
  have s: "startup form_edited" by (simp add: startup_def form_edited_def form_defaults_def)
  have s0: "startup form_defaults" by (simp add: startup_def form_defaults_def)
  have ls: "lastSent form_edited = []" by (simp add: form_edited_def form_defaults_def)
  have ok: "\<forall>k v. storeAccepts allOk k v" by (simp add: allOk_def)
  have oks: "list_all store_ok typing_title" by (simp add: typing_title_def allOk_def)
  have nx: "fst (snapshotSettings form_edited)
      = \<lparr>bg = ''navy'', titleText = ''QUIET'', textColor = ''white'', subtitleText = [],
         subtitleColor = ''turquoise'', timerMode = Countdown, timerMin = 12, timerSec = 59\<rparr>"
    by (simp add: snapshotSettings_def form_edited_def form_defaults_def Let_def clampInt_def
        inputNumber_def)
  have sec: "String_of 59 = ''59''" by code_simp
  have tm: "timerModeSelect form_edited = ''countdown''"
    by (simp add: form_edited_def)
  have titles: "map titleText (emitted (control_run typing_title form_defaults)) = [''ATTENTION'', ''QUIET PLEASE'']"
    by code_simp
  note t = idempotent_publish[of form_edited allOk storeFull typing_title]
  note t1 = idempotent_publish[of "snd (pushNow allOk form_edited)" storeFull allOk "[]"]
  note t0 = idempotent_publish[of form_defaults allOk allOk typing_title]
  from t ls have ne: "JSON_stringify (fst (snapshotSettings form_edited)) \<noteq> lastSent form_edited"
    by blast
  from t s ok have one: "emitted (control_run [PushNow allOk, PushNow allOk] form_edited)
       = [fst (snapshotSettings form_edited)]"
    using idempotent_publish[of form_edited allOk allOk "[]"] by blast
  from t ne ok have rb: "readStoredSettings_settings (localStorage (snd (pushNow allOk form_edited)))
       = Some (fst (snapshotSettings form_edited))"
    and k1: "localStorage (snd (pushNow allOk form_edited)) ''timerSec''
       = Some (String_of (timerSec (fst (snapshotSettings form_edited))))"
    and k2: "localStorage (snd (pushNow allOk form_edited)) ''timerMode''
       = Some (if timerModeSelect form_edited = ''countdown'' then ''countdown'' else ''off'')"
    by blast+
  from t ne ok have ac: "fst (pushNow allOk form_edited) = Completed" by blast
  have settled1: "JSON_stringify (fst (snapshotSettings (snd (pushNow allOk form_edited))))
       = lastSent (snd (pushNow allOk form_edited))"
    using pushNow_settled[of allOk form_edited] by (simp add: settled_def)
  from t1 settled1 have sup: "emitted (snd (pushNow storeFull (snd (pushNow allOk form_edited))))
       = emitted (snd (pushNow allOk form_edited))"
    by blast
  from t0 s0 oks have g: "gate_inv (control_run typing_title form_defaults)" by blast
  from s ls ne one rb k1 k2 settled1 sup oks g titles nx sec tm show ?thesis by simp
qed

text \<open>
  Claim C2 as stated fails. On a store that refuses the write the first attempt after
  start-up emits nothing, and neither does the one after it. After a publish, an edit
  whose write was refused, and the edit taken back, the snapshot serialises to the last
  emitted value but not to \<open>lastSent\<close>: the attempt writes the store and emits the same
  snapshot a second time.
\<close>

theorem idempotent_publish_counterexample:
  "startup form_defaults
   \<and> emitted (control_run [PushNow storeFull, PushNow allOk] form_defaults) = []
   \<and> map titleText (emitted failed_then_reverted) = [''ATTENTION'']
   \<and> JSON_stringify (fst (snapshotSettings failed_then_reverted))
       = JSON_stringify (last (emitted failed_then_reverted))
   \<and> JSON_stringify (fst (snapshotSettings failed_then_reverted)) \<noteq> lastSent failed_then_reverted
   \<and> map titleText (emitted (snd (pushNow allOk failed_then_reverted)))
       = [''ATTENTION'', ''ATTENTION'']
   \<and> localStorage (snd (pushNow allOk failed_then_reverted)) ''titleText'' = Some ''ATTENTION''"
proof -
  have "startup form_defaults" by (simp add: startup_def form_defaults_def)
  moreover have "emitted (control_run [PushNow storeFull, PushNow allOk] form_defaults) = []"
    by code_simp
  moreover have "map titleText (emitted failed_then_reverted) = [''ATTENTION'']"
    by code_simp
  moreover have "JSON_stringify (fst (snapshotSettings failed_then_reverted))
       = JSON_stringify (last (emitted failed_then_reverted))"
    by code_simp
  moreover have "JSON_stringify (fst (snapshotSettings failed_then_reverted)) \<noteq> lastSent failed_then_reverted"
    by code_simp
  moreover have "map titleText (emitted (snd (pushNow allOk failed_then_reverted)))
       = [''ATTENTION'', ''ATTENTION'']"
    by code_simp
  moreover have "localStorage (snd (pushNow allOk failed_then_reverted)) ''titleText'' = Some ''ATTENTION''"
    by code_simp
  ultimately show ?thesis by simp
qed

subsection \<open>Store failure\<close>

text \<open>
  Claim C6, as amended. For an accepted publish whose store write throws, the exception
  leaves \<open>pushNow\<close>: nothing is emitted and nothing is logged, \<open>lastSent\<close> already holds the
  snapshot's serialisation, and the form still yields the same snapshot. When the store
  write completes, the snapshot is persisted and then emitted, and a rejected emission
  is logged and ignored.
\<close>

theorem store_failure_propagates:
  "JSON_stringify (fst (snapshotSettings st)) \<noteq> lastSent st \<longrightarrow>
     (fst (writeStoredSettings (storeAccepts env) (fst (snapshotSettings st)) (localStorage st)) = Threw
        \<longrightarrow> fst (pushNow env st) = Threw \<and> emitted (snd (pushNow env st)) = emitted st
            \<and> consoleErrors (snd (pushNow env st)) = consoleErrors st
            \<and> lastSent (snd (pushNow env st)) = JSON_stringify (fst (snapshotSettings st))
            \<and> fst (snapshotSettings (snd (pushNow env st))) = fst (snapshotSettings st))
     \<and> (fst (writeStoredSettings (storeAccepts env) (fst (snapshotSettings st)) (localStorage st)) = Completed
        \<longrightarrow> fst (pushNow env st) = Completed
            \<and> emitted (snd (pushNow env st)) = emitted st @ [fst (snapshotSettings st)]
            \<and> localStorage (snd (pushNow env st))
                = snd (writeStoredSettings (storeAccepts env) (fst (snapshotSettings st)) (localStorage st))
            \<and> consoleErrors (snd (pushNow env st)) = consoleErrors st + (if busAccepts env then 0 else 1))"
  using pushNow_write_threw[of st env] pushNow_write_completed[of st env] by blast

theorem store_failure_propagates_witness:
  "JSON_stringify (fst (snapshotSettings form_defaults)) \<noteq> lastSent form_defaults
   \<and> fst (writeStoredSettings (storeAccepts storeFull) (fst (snapshotSettings form_defaults))
           (localStorage form_defaults)) = Threw
   \<and> fst (pushNow storeFull form_defaults) = Threw
   \<and> emitted (snd (pushNow storeFull form_defaults)) = emitted form_defaults
   \<and> fst (writeStoredSettings (storeAccepts busDown) (fst (snapshotSettings form_defaults))
           (localStorage form_defaults)) = Completed
   \<and> emitted (snd (pushNow busDown form_defaults)) = emitted form_defaults @ [fst (snapshotSettings form_defaults)]
   \<and> consoleErrors (snd (pushNow busDown form_defaults)) = 1"
proof -
  have ne: "JSON_stringify (fst (snapshotSettings form_defaults)) \<noteq> lastSent form_defaults"
    by (simp add: JSON_stringify_nonempty form_defaults_def)
  have thr: "fst (writeStoredSettings (storeAccepts storeFull) (fst (snapshotSettings form_defaults))
           (localStorage form_defaults)) = Threw"
    by (simp add: writeStoredSettings_def storedEntries_def storeFull_def)
  have cmp: "fst (writeStoredSettings (storeAccepts busDown) (fst (snapshotSettings form_defaults))
           (localStorage form_defaults)) = Completed"
    by (simp add: writeStoredSettings_def storedEntries_def busDown_def)
  have ce: "consoleErrors form_defaults = 0" "\<not> busAccepts busDown"
    by (simp_all add: form_defaults_def busDown_def)
  from store_failure_propagates[of form_defaults storeFull] ne thr
  have a: "fst (pushNow storeFull form_defaults) = Threw
     \<and> emitted (snd (pushNow storeFull form_defaults)) = emitted form_defaults" by blast
  from store_failure_propagates[of form_defaults busDown] ne cmp
  have b: "emitted (snd (pushNow busDown form_defaults)) = emitted form_defaults @ [fst (snapshotSettings form_defaults)]
     \<and> consoleErrors (snd (pushNow busDown form_defaults)) = consoleErrors form_defaults + (if busAccepts busDown then 0 else 1)"
    by blast
  from ne thr cmp a b ce show ?thesis by simp
qed

text \<open>
  Claim C6 as stated fails: with a store that refuses the write, the accepted first
  publish of the defaults ends with an exception, emits nothing and logs nothing.
\<close>

theorem store_failure_counterexample:
  "JSON_stringify (fst (snapshotSettings form_defaults)) \<noteq> lastSent form_defaults
   \<and> fst (writeStoredSettings (storeAccepts storeFull) (fst (snapshotSettings form_defaults))
           (localStorage form_defaults)) = Threw
   \<and> fst (pushNow storeFull form_defaults) = Threw
   \<and> emitted (snd (pushNow storeFull form_defaults)) = []
   \<and> consoleErrors (snd (pushNow storeFull form_defaults)) = 0"
proof -
  have "JSON_stringify (fst (snapshotSettings form_defaults)) \<noteq> lastSent form_defaults"
    by (simp add: JSON_stringify_nonempty form_defaults_def)
  moreover have "fst (writeStoredSettings (storeAccepts storeFull) (fst (snapshotSettings form_defaults))
           (localStorage form_defaults)) = Threw"
    by (simp add: writeStoredSettings_def storedEntries_def storeFull_def)
  moreover have "fst (pushNow storeFull form_defaults) = Threw" by code_simp
  moreover have "emitted (snd (pushNow storeFull form_defaults)) = []" by code_simp
  moreover have "consoleErrors (snd (pushNow storeFull form_defaults)) = 0" by code_simp
  ultimately show ?thesis by simp
qed

subsection \<open>The gate is set before the effects\<close>

text \<open>
  Claim C10. \<open>pushNow\<close> leaves \<open>lastSent\<close> at the snapshot's serialisation however the call
  ends. From then on, as long as no form control is edited, no queued or direct publish
  attempt writes the store or emits, whatever the store and the bus would now accept; if
  the first call ended with an exception, the snapshot is therefore never emitted. Any
  later attempt from a state with that \<open>lastSent\<close> whose snapshot serialises identically is
  suppressed as well.
\<close>

theorem gate_recorded_before_effects:
  "lastSent (snd (pushNow env st)) = JSON_stringify (fst (snapshotSettings st))
   \<and> (\<not> list_ex is_edit es
      \<longrightarrow> localStorage (control_run es (snd (pushNow env st))) = localStorage (snd (pushNow env st))
          \<and> emitted (control_run es (snd (pushNow env st))) = emitted (snd (pushNow env st))
          \<and> lastSent (control_run es (snd (pushNow env st))) = lastSent (snd (pushNow env st)))
   \<and> (fst (pushNow env st) = Threw \<and> \<not> list_ex is_edit es
      \<longrightarrow> emitted (control_run es (snd (pushNow env st))) = emitted st)
   \<and> (lastSent st2 = lastSent (snd (pushNow env st))
      \<and> JSON_stringify (fst (snapshotSettings st2)) = JSON_stringify (fst (snapshotSettings st))
      \<longrightarrow> fst (pushNow env2 st2) = Completed \<and> localStorage (snd (pushNow env2 st2)) = localStorage st2
          \<and> emitted (snd (pushNow env2 st2)) = emitted st2)"
proof -
  let ?st1 = "snd (pushNow env st)"
  have rec: "lastSent ?st1 = JSON_stringify (fst (snapshotSettings st))" by (rule pushNow_lastSent)
  have quiet: "\<not> list_ex is_edit es \<longrightarrow> same_effects (control_run es ?st1) ?st1"
    using settled_run[OF pushNow_settled[of env st], of es] by simp
  have never: "fst (pushNow env st) = Threw \<and> \<not> list_ex is_edit es
      \<longrightarrow> emitted (control_run es ?st1) = emitted st"
    using quiet pushNow_threw_fields[of env st] by (simp add: same_effects_def)
  have again: "lastSent st2 = lastSent ?st1
      \<and> JSON_stringify (fst (snapshotSettings st2)) = JSON_stringify (fst (snapshotSettings st))
      \<longrightarrow> fst (pushNow env2 st2) = Completed \<and> localStorage (snd (pushNow env2 st2)) = localStorage st2
          \<and> emitted (snd (pushNow env2 st2)) = emitted st2"
    using pushNow_suppressed_fields[of st2 env2] rec by simp
  from rec quiet never again show ?thesis by (simp add: same_effects_def)
qed

theorem gate_recorded_before_effects_witness:
  "fst (pushNow storeFull form_defaults) = Threw \<and> \<not> list_ex is_edit retries
   \<and> lastSent (snd (pushNow storeFull form_defaults)) = JSON_stringify (fst (snapshotSettings form_defaults))
   \<and> emitted (control_run retries (snd (pushNow storeFull form_defaults))) = []
   \<and> localStorage (control_run retries (snd (pushNow storeFull form_defaults))) ''bg'' = None"
proof -
  have thr: "fst (pushNow storeFull form_defaults) = Threw" by code_simp
  have ne: "\<not> list_ex is_edit retries" by (simp add: retries_def)
  have e: "emitted form_defaults = []" by (simp add: form_defaults_def)
  have st: "localStorage (snd (pushNow storeFull form_defaults)) ''bg'' = None" by code_simp
  note t = gate_recorded_before_effects[of storeFull form_defaults retries form_defaults allOk]
  from t have rec: "lastSent (snd (pushNow storeFull form_defaults))
      = JSON_stringify (fst (snapshotSettings form_defaults))"
    by blast
  from t ne have q: "localStorage (control_run retries (snd (pushNow storeFull form_defaults)))
      = localStorage (snd (pushNow storeFull form_defaults))"
    by blast
  from t thr ne have "emitted (control_run retries (snd (pushNow storeFull form_defaults)))
      = emitted form_defaults"
    by blast
  with e have em: "emitted (control_run retries (snd (pushNow storeFull form_defaults))) = []"
    by simp
  from q st have "localStorage (control_run retries (snd (pushNow storeFull form_defaults))) ''bg'' = None"
    by simp
  with thr ne rec em show ?thesis by simp
qed

section \<open>Defaults\<close>

text \<open>
  Claim C7. With every key absent the display surface reads the defaults of the
  specification. The control surface reads the same values except for the subtitle
  colour, which is \<open>white\<close> there and \<open>navy\<close> on the display surface.
\<close>

theorem defaults_on_absent_keys:
  "readStoredSettings Map.empty =
     Some \<lparr>bg = ''turquoise'', titleText = ''ATTENTION'', textColor = ''navy'',
           subtitleText = ''CHECK YOUR ZOOM CHAT'', subtitleColor = ''navy'',
           timerMode = Off, timerMin = 5, timerSec = 0\<rparr>
   \<and> readStoredSettings_settings Map.empty =
     Some \<lparr>bg = ''turquoise'', titleText = ''ATTENTION'', textColor = ''navy'',
           subtitleText = ''CHECK YOUR ZOOM CHAT'', subtitleColor = ''white'',
           timerMode = Off, timerMin = 5, timerSec = 0\<rparr>"
  by (simp add: readStoredSettings_def readStoredSettings_settings_def getOr_def mode_of_def
      Number_of_def is_digit_def decimal_value_def digit_value_def)


end
